theory Spec2Isabelle
  imports Main "HOL-Library.Sublist"
begin

section \<open>Exceptions\<close>

text \<open>
  Every \<^verbatim>\<open>raise\<close> of \<^verbatim>\<open>download_ohlcv_2025.py\<close> and of the library
  calls it makes is a value: a class and the text that \<^verbatim>\<open>str(e)\<close> gives. All classes
  below derive from Python's \<^verbatim>\<open>Exception\<close>, so \<^verbatim>\<open>except Exception\<close> catches
  each of them; \<^verbatim>\<open>except ValueError\<close> and \<^verbatim>\<open>except BinanceAPIException\<close> look at
  the class. The texts of exceptions that a library raises are indicative only.
\<close>

datatype exn_class =
  ValueError | KeyError | AttributeError | OSError | BinanceAPIException | OtherException

datatype exn = Exn (cls: exn_class) (str_of: string)

section \<open>The date validator\<close>

subsection \<open>\<^verbatim>\<open>datetime.strptime(date_str, "%Y-%m-%d")\<close>\<close>

text \<open>
  A Python string is modelled as a \<^typ>\<open>string\<close> whose characters are code points
  below 256; among those the regular expression class \<^verbatim>\<open>\d\<close> is the ten ASCII digits.

  CPython's \<^verbatim>\<open>_strptime\<close> turns the format into the regular expression
  \<^verbatim>\<open>(?P<Y>\d\d\d\d)-(?P<m>1[0-2]|0[1-9]|[1-9])-(?P<d>3[0-1]|[1-2]\d|0[1-9]|[1-9]| [1-9])\<close>,
  matches it at the start of the string, rejects the string when text is left over, and
  then builds the date, which checks the year and the day of the month. The matcher
  below is the backtracking matcher as a list of successes: alternatives are tried from
  the left and the first overall match is the one \<^verbatim>\<open>re.match\<close> returns.
\<close>

type_synonym matcher = "string \<Rightarrow> (string \<times> string) list"

definition in_range :: "char \<Rightarrow> char \<Rightarrow> char \<Rightarrow> bool" where
  "in_range lo hi c = ((of_char lo :: nat) \<le> of_char c \<and> (of_char c :: nat) \<le> of_char hi)"

definition re_char :: "(char \<Rightarrow> bool) \<Rightarrow> matcher" where
  "re_char p s = (case s of [] \<Rightarrow> [] | c # r \<Rightarrow> if p c then [([c], r)] else [])"

definition re_seq :: "matcher \<Rightarrow> matcher \<Rightarrow> matcher" where
  "re_seq a b s = concat (map (\<lambda>(x, r). map (\<lambda>(y, r'). (x @ y, r')) (b r)) (a s))"

definition re_alt :: "matcher \<Rightarrow> matcher \<Rightarrow> matcher" where
  "re_alt a b s = a s @ b s"

definition re_digit :: matcher where
  "re_digit = re_char (in_range (CHR ''0'') (CHR ''9''))"

definition re_Y :: matcher where
  "re_Y = re_seq re_digit (re_seq re_digit (re_seq re_digit re_digit))"

definition re_m :: matcher where
  "re_m = re_alt (re_seq (re_char (\<lambda>c. c = CHR ''1'')) (re_char (in_range (CHR ''0'') (CHR ''2''))))
         (re_alt (re_seq (re_char (\<lambda>c. c = CHR ''0'')) (re_char (in_range (CHR ''1'') (CHR ''9''))))
              (re_char (in_range (CHR ''1'') (CHR ''9''))))"

definition re_d :: matcher where
  "re_d = re_alt (re_seq (re_char (\<lambda>c. c = CHR ''3'')) (re_char (in_range (CHR ''0'') (CHR ''1''))))
         (re_alt (re_seq (re_char (in_range (CHR ''1'') (CHR ''2''))) re_digit)
         (re_alt (re_seq (re_char (\<lambda>c. c = CHR ''0'')) (re_char (in_range (CHR ''1'') (CHR ''9''))))
         (re_alt (re_char (in_range (CHR ''1'') (CHR ''9'')))
              (re_seq (re_char (\<lambda>c. c = CHR '' '')) (re_char (in_range (CHR ''1'') (CHR ''9'')))))))"

definition re_dash :: matcher where
  "re_dash = re_char (\<lambda>c. c = CHR ''-'')"

text \<open>The groups \<^verbatim>\<open>Y\<close>, \<^verbatim>\<open>m\<close>, \<^verbatim>\<open>d\<close> of the first match and the text left over.\<close>

definition format_regex_match :: "string \<Rightarrow> ((string \<times> string \<times> string) \<times> string) option" where
  "format_regex_match s =
     (case concat (map (\<lambda>(y, r1). concat (map (\<lambda>(_, r2). concat (map (\<lambda>(m, r3).
             concat (map (\<lambda>(_, r4). map (\<lambda>(d, r5). ((y, m, d), r5)) (re_d r4)) (re_dash r3)))
             (re_m r2))) (re_dash r1))) (re_Y s)) of
        [] \<Rightarrow> None
      | found # _ \<Rightarrow> Some found)"

text \<open>\<^verbatim>\<open>int(group)\<close> on a group of the match: blanks are skipped, digits are read in base 10.\<close>

definition py_int :: "string \<Rightarrow> nat" where
  "py_int s = foldl (\<lambda>n c. 10 * n + (of_char c - 48)) 0 (dropWhile (\<lambda>c. c = CHR '' '') s)"

definition is_leap :: "nat \<Rightarrow> bool" where
  "is_leap y = (y mod 4 = 0 \<and> (y mod 100 \<noteq> 0 \<or> y mod 400 = 0))"

definition days_in_month :: "nat \<Rightarrow> nat \<Rightarrow> nat" where
  "days_in_month y m =
     (if m = 2 then (if is_leap y then 29 else 28)
      else if m = 4 \<or> m = 6 \<or> m = 9 \<or> m = 11 then 30 else 31)"

type_synonym date = "nat \<times> nat \<times> nat"

text \<open>The date constructor's check: years 1 to 9999, months 1 to 12, a day of that month.\<close>

definition check_date_fields :: "nat \<Rightarrow> nat \<Rightarrow> nat \<Rightarrow> exn + date" where
  "check_date_fields y m d =
     (if \<not> (1 \<le> y \<and> y \<le> 9999) then Inl (Exn ValueError ''year is out of range'')
      else if \<not> (1 \<le> m \<and> m \<le> 12) then Inl (Exn ValueError ''month must be in 1..12'')
      else if \<not> (1 \<le> d \<and> d \<le> days_in_month y m)
        then Inl (Exn ValueError ''day is out of range for month'')
      else Inr (y, m, d))"

definition strptime :: "string \<Rightarrow> exn + date" where
  "strptime data_string =
     (case format_regex_match data_string of
        None \<Rightarrow> Inl (Exn ValueError
          (''time data '' @ data_string @ '' does not match format %Y-%m-%d''))
      | Some ((y, m, d), rest) \<Rightarrow>
          if rest \<noteq> [] then Inl (Exn ValueError (''unconverted data remains: '' @ rest))
          else check_date_fields (py_int y) (py_int m) (py_int d))"

subsection \<open>\<^verbatim>\<open>validate_date\<close>\<close>

definition invalid_date_format :: "string \<Rightarrow> exn" where
  "invalid_date_format date_str =
     Exn ValueError (''Invalid date format: '' @ date_str @ ''. Use YYYY-MM-DD format.'')"

definition validate_date :: "string \<Rightarrow> exn + bool" where
  "validate_date date_str =
     (case strptime date_str of
        Inr _ \<Rightarrow> Inr True
      | Inl e \<Rightarrow> if cls e = ValueError then Inl (invalid_date_format date_str) else Inl e)"

section \<open>Tables\<close>

text \<open>
  A pandas \<^verbatim>\<open>Timestamp\<close> is its wall-clock reading in milliseconds and, when it is
  timezone-aware, the name of its zone. A cell is \<^verbatim>\<open>None\<close>/\<^verbatim>\<open>NaN\<close>/\<^verbatim>\<open>NaT\<close>
  (\<open>Null\<close>), an integer, a floating-point number (the type \<open>'n\<close>, left abstract), a
  string or a timestamp. A \<^verbatim>\<open>DataFrame\<close> is its index (with the index's name) and its
  labelled columns in order; labels may repeat, as pandas allows.
\<close>

datatype timestamp = Timestamp (wall: int) (tz: "string option")

datatype 'n cell = Null | IntV int | NumV 'n | StrV string | TimeV timestamp

record 'n frame =
  index_name :: "string option"
  index :: "'n cell list"
  columns :: "(string \<times> 'n cell list) list"

definition labels :: "'n frame \<Rightarrow> string list" where
  "labels df = map fst (columns df)"

definition len :: "'n frame \<Rightarrow> nat" where
  "len df = length (index df)"

definition df_empty :: "'n frame \<Rightarrow> bool" where
  "df_empty df = (index df = [] \<or> columns df = [])"

definition range_index :: "nat \<Rightarrow> 'n cell list" where
  "range_index n = map (\<lambda>i. IntV (int i)) [0..<n]"

definition bind_exn :: "exn + 'a \<Rightarrow> ('a \<Rightarrow> exn + 'b) \<Rightarrow> exn + 'b" where
  "bind_exn r f = (case r of Inl e \<Rightarrow> Inl e | Inr x \<Rightarrow> f x)"

text \<open>
  \<^verbatim>\<open>pd.DataFrame(data, columns=cols)\<close> on a list of rows: no rows give an empty frame
  with the given labels; otherwise short rows are padded with \<^verbatim>\<open>None\<close> to the longest
  row, and a width other than the number of labels raises \<^verbatim>\<open>ValueError\<close>.
\<close>

definition field :: "nat \<Rightarrow> 'n cell list list \<Rightarrow> 'n cell list" where
  "field j data = map (\<lambda>row. if j < length row then row ! j else Null) data"

definition DataFrame :: "'n cell list list \<Rightarrow> string list \<Rightarrow> exn + 'n frame" where
  "DataFrame data cols =
     (if data = [] then
        Inr \<lparr>index_name = None, index = [], columns = map (\<lambda>c. (c, [])) cols\<rparr>
      else
        let width = foldr max (map length data) 0 in
        if width \<noteq> length cols then
          Inl (Exn ValueError ''columns passed do not match the columns of the data'')
        else
          Inr \<lparr>index_name = None, index = range_index (length data),
               columns = map (\<lambda>j. (cols ! j, field j data)) [0..<width]\<rparr>)"

text \<open>
  \<^verbatim>\<open>df[label]\<close>: a missing label raises \<^verbatim>\<open>KeyError\<close>; a label that several
  columns carry selects a \<^verbatim>\<open>DataFrame\<close>, on which \<^verbatim>\<open>pd.to_datetime\<close>,
  \<^verbatim>\<open>pd.to_numeric\<close> and \<^verbatim>\<open>.dt\<close> raise.
\<close>

definition get_series :: "string \<Rightarrow> 'n frame \<Rightarrow> exn + 'n cell list" where
  "get_series label df =
     (case filter (\<lambda>(l, _). l = label) (columns df) of
        [] \<Rightarrow> Inl (Exn KeyError label)
      | [(_, cells)] \<Rightarrow> Inr cells
      | _ \<Rightarrow> Inl (Exn OtherException (''not a Series: '' @ label)))"

text \<open>\<^verbatim>\<open>df[label] = cells\<close>: replaces the column of that label, or appends a new one.\<close>

definition set_series :: "string \<Rightarrow> 'n cell list \<Rightarrow> 'n frame \<Rightarrow> 'n frame" where
  "set_series label cells df =
     (if label \<in> set (labels df) then
        df\<lparr>columns := map (\<lambda>(l, c). if l = label then (l, cells) else (l, c)) (columns df)\<rparr>
      else df\<lparr>columns := columns df @ [(label, cells)]\<rparr>)"

text \<open>
  \<^verbatim>\<open>df[[l1, ..., lk]]\<close>: for each label in turn every column that carries it; a label
  that no column carries raises \<^verbatim>\<open>KeyError\<close>.
\<close>

definition select_columns :: "string list \<Rightarrow> 'n frame \<Rightarrow> exn + 'n frame" where
  "select_columns ls df =
     (case filter (\<lambda>l. l \<notin> set (labels df)) ls of
        missing # _ \<Rightarrow> Inl (Exn KeyError missing)
      | [] \<Rightarrow> Inr (df\<lparr>columns :=
                 concat (map (\<lambda>l. filter (\<lambda>(l', _). l' = l) (columns df)) ls)\<rparr>))"

text \<open>
  \<^verbatim>\<open>df.reset_index()\<close>: the index becomes the first column, under the index's name
  (\<^verbatim>\<open>index\<close>, or \<^verbatim>\<open>level_0\<close>, for an unnamed one); a label already in use raises.
\<close>

definition reset_index :: "'n frame \<Rightarrow> exn + 'n frame" where
  "reset_index df =
     (let name = (case index_name df of
                    Some n \<Rightarrow> n
                  | None \<Rightarrow> if ''index'' \<in> set (labels df) then ''level_0'' else ''index'')
      in if name \<in> set (labels df) then
           Inl (Exn ValueError (''cannot insert '' @ name @ '', already exists''))
         else Inr \<lparr>index_name = None, index = range_index (len df),
                   columns = (name, index df) # columns df\<rparr>)"

text \<open>\<^verbatim>\<open>df.rename(columns={old: new})\<close>.\<close>

definition rename :: "string \<Rightarrow> string \<Rightarrow> 'n frame \<Rightarrow> 'n frame" where
  "rename old new df =
     df\<lparr>columns := map (\<lambda>(l, c). (if l = old then new else l, c)) (columns df)\<rparr>"

subsection \<open>Conversions\<close>

text \<open>
  What the program needs of its surroundings is collected in one record: the two
  providers, the clock, the disk, and the parts of pandas that depend on floating-point
  arithmetic or on the library's version. The first argument of an effectful member is
  the number of events that happened before the call, so a provider may answer the
  same request differently each time.
\<close>

record 'n env =
  today :: string
  client_init :: "nat \<Rightarrow> exn option"
  get_historical_klines :: "nat \<Rightarrow> string \<Rightarrow> int \<Rightarrow> int \<Rightarrow> exn + 'n cell list list"
  ticker_history :: "nat \<Rightarrow> string \<Rightarrow> string \<Rightarrow> string \<Rightarrow> exn + 'n frame"
  disk :: "nat \<Rightarrow> string \<Rightarrow> exn option"
  local_timestamp :: "date \<Rightarrow> exn + int"
  str_to_num :: "string \<Rightarrow> 'n option"
  to_datetime_other :: "'n cell \<Rightarrow> exn + 'n cell"
  cell_text :: "'n cell list \<Rightarrow> nat \<Rightarrow> string"

text \<open>
  \<^verbatim>\<open>pd.to_datetime(series, unit="ms")\<close>, cell by cell: an integer is that many
  milliseconds since the epoch, timezone-naive, and raises when it does not fit the
  nanosecond range of a \<^verbatim>\<open>Timestamp\<close>; a missing value stays missing; what happens to
  a string or a float depends on the pandas version and is the environment's
  \<open>to_datetime_other\<close>.
\<close>

definition to_datetime_cell :: "'n env \<Rightarrow> 'n cell \<Rightarrow> exn + 'n cell" where
  "to_datetime_cell env c =
     (case c of
        IntV n \<Rightarrow> if - 9223372036854 \<le> n \<and> n \<le> 9223372036854
                  then Inr (TimeV (Timestamp n None))
                  else Inl (Exn ValueError ''Out of bounds nanosecond timestamp'')
      | Null \<Rightarrow> Inr Null
      | TimeV t \<Rightarrow> Inr (TimeV t)
      | _ \<Rightarrow> to_datetime_other env c)"

fun to_datetime :: "'n env \<Rightarrow> 'n cell list \<Rightarrow> exn + 'n cell list" where
  "to_datetime env [] = Inr []"
| "to_datetime env (c # cs) =
     bind_exn (to_datetime_cell env c) (\<lambda>t. bind_exn (to_datetime env cs) (\<lambda>ts. Inr (t # ts)))"

text \<open>
  \<^verbatim>\<open>pd.to_numeric(series, errors=...)\<close>, cell by cell: numbers stay, a string that
  parses as a number becomes that number, and anything else raises under
  \<^verbatim>\<open>errors="raise"\<close> and becomes \<^verbatim>\<open>NaN\<close> under \<^verbatim>\<open>errors="coerce"\<close>.
\<close>

datatype errors_mode = Raise | Coerce

definition is_numeric :: "'n env \<Rightarrow> 'n cell \<Rightarrow> bool" where
  "is_numeric env c =
     (case c of IntV _ \<Rightarrow> True | NumV _ \<Rightarrow> True | StrV s \<Rightarrow> str_to_num env s \<noteq> None
      | _ \<Rightarrow> False)"

definition to_numeric_cell :: "errors_mode \<Rightarrow> 'n env \<Rightarrow> 'n cell \<Rightarrow> exn + 'n cell" where
  "to_numeric_cell errors env c =
     (case c of
        Null \<Rightarrow> Inr Null
      | IntV n \<Rightarrow> Inr (IntV n)
      | NumV x \<Rightarrow> Inr (NumV x)
      | StrV s \<Rightarrow> (case str_to_num env s of
                     Some x \<Rightarrow> Inr (NumV x)
                   | None \<Rightarrow> (case errors of
                                Raise \<Rightarrow> Inl (Exn ValueError (''Unable to parse string '' @ s))
                              | Coerce \<Rightarrow> Inr Null))
      | TimeV t \<Rightarrow> (case errors of
                      Raise \<Rightarrow> Inl (Exn OtherException ''Invalid object type'')
                    | Coerce \<Rightarrow> Inr Null))"

fun to_numeric :: "errors_mode \<Rightarrow> 'n env \<Rightarrow> 'n cell list \<Rightarrow> exn + 'n cell list" where
  "to_numeric errors env [] = Inr []"
| "to_numeric errors env (c # cs) =
     bind_exn (to_numeric_cell errors env c)
       (\<lambda>x. bind_exn (to_numeric errors env cs) (\<lambda>xs. Inr (x # xs)))"

text \<open>
  \<^verbatim>\<open>series.dt.tz_localize(None)\<close>: the accessor needs a datetime column (timestamps of
  one zone, or naive ones, with missing values allowed) and raises \<^verbatim>\<open>AttributeError\<close>
  otherwise; the wall-clock reading is kept and the zone is dropped.
\<close>

definition is_datetime_column :: "'n cell list \<Rightarrow> bool" where
  "is_datetime_column cells =
     (list_all (\<lambda>c. case c of TimeV _ \<Rightarrow> True | Null \<Rightarrow> True | _ \<Rightarrow> False) cells \<and>
      length (remdups (concat (map (\<lambda>c. case c of TimeV t \<Rightarrow> [tz t] | _ \<Rightarrow> []) cells))) \<le> 1)"

definition strip_tz :: "'n cell \<Rightarrow> 'n cell" where
  "strip_tz c = (case c of TimeV t \<Rightarrow> TimeV (Timestamp (wall t) None) | _ \<Rightarrow> c)"

definition tz_localize_none :: "'n cell list \<Rightarrow> exn + 'n cell list" where
  "tz_localize_none cells =
     (if is_datetime_column cells then Inr (map strip_tz cells)
      else Inl (Exn AttributeError ''Can only use .dt accessor with datetimelike values''))"

section \<open>The world: console, providers, disk\<close>

text \<open>
  The console lines are kept as the template and its arguments; \<open>render\<close> gives the
  text that \<^verbatim>\<open>print\<close> writes.
\<close>

datatype msg =
    DownloadingBinance string
  | DownloadingYahoo string
  | Downloaded nat string
  | BinanceApiError string exn
  | UnexpectedError string exn
  | YahooError string exn
  | Saved string
  | SaveError string exn
  | UnknownAsset string
  | FailedDownload string exn
  | DateError exn
  | DoubleRule
  | SingleRule
  | Title
  | Period string string
  | AssetsLine "string list"
  | Complete nat nat

fun str_nat :: "nat \<Rightarrow> string" where
  "str_nat n = (if n < 10 then [char_of (48 + n)]
                else str_nat (n div 10) @ [char_of (48 + n mod 10)])"

fun join :: "string \<Rightarrow> string list \<Rightarrow> string" where
  "join sep [] = []"
| "join sep [x] = x"
| "join sep (x # y # ys) = x @ sep @ join sep (y # ys)"

fun render :: "msg \<Rightarrow> string" where
  "render (DownloadingBinance symbol) = ''Downloading '' @ symbol @ '' data from Binance...''"
| "render (DownloadingYahoo symbol) = ''Downloading '' @ symbol @ '' data from Yahoo Finance...''"
| "render (Downloaded n symbol) =
     ''Successfully downloaded '' @ str_nat n @ '' records for '' @ symbol"
| "render (BinanceApiError symbol e) = ''Binance API error for '' @ symbol @ '': '' @ str_of e"
| "render (UnexpectedError symbol e) =
     ''Unexpected error downloading '' @ symbol @ '': '' @ str_of e"
| "render (YahooError symbol e) =
     ''Error downloading '' @ symbol @ '' from Yahoo Finance: '' @ str_of e"
| "render (Saved filename) = ''Data saved to '' @ filename"
| "render (SaveError filename e) = ''Error saving to '' @ filename @ '': '' @ str_of e"
| "render (UnknownAsset asset) = ''Unknown asset: '' @ asset"
| "render (FailedDownload asset e) = ''Failed to download '' @ asset @ '': '' @ str_of e"
| "render (DateError e) = ''Error: '' @ str_of e"
| "render DoubleRule = replicate 60 (CHR ''='')"
| "render SingleRule = replicate 60 (CHR ''-'')"
| "render Title = ''OHLCV Data Downloader''"
| "render (Period start_date end_date) = ''Period: '' @ start_date @ '' to '' @ end_date"
| "render (AssetsLine assets) = ''Assets: '' @ join '', '' assets"
| "render (Complete success_count total_count) =
     ''Download complete: '' @ str_nat success_count @ ''/'' @ str_nat total_count @
     '' successful''"

text \<open>
  An event is a console line, a call that reaches a provider over the network
  (\<^verbatim>\<open>Client()\<close> pings the exchange, \<^verbatim>\<open>get_historical_klines\<close>,
  \<^verbatim>\<open>Ticker.history\<close>), or an attempt to write a file. The world is the events so far
  and the files on disk, each file being its lines.
\<close>

datatype event =
    Print msg
  | NewClient
  | GetHistoricalKlines string int int
  | TickerHistory string string string
  | WriteFile string

record world =
  trace :: "event list"
  files :: "string \<Rightarrow> string list option"

definition emit :: "event \<Rightarrow> world \<Rightarrow> world" where
  "emit ev w = w\<lparr>trace := trace w @ [ev]\<rparr>"

definition clock :: "world \<Rightarrow> nat" where
  "clock w = length (trace w)"

section \<open>Constants of the script\<close>

definition DEFAULT_START_DATE :: string where
  "DEFAULT_START_DATE = ''2025-01-01''"

definition SUPPORTED_ASSETS :: "string list" where
  "SUPPORTED_ASSETS = [''btcusdt'', ''ethusdt'', ''xauusd'']"

definition OUTPUT_FILES :: "string \<Rightarrow> string option" where
  "OUTPUT_FILES = map_of
     [(''btcusdt'', ''btcusdt_ohlcv_2025.csv''),
      (''ethusdt'', ''ethusdt_ohlcv_2025.csv''),
      (''xauusd'', ''xauusd_ohlcv_2025.csv'')]"

definition kline_columns :: "string list" where
  "kline_columns =
     [''Open Time'', ''Open'', ''High'', ''Low'', ''Close'', ''Volume'', ''Close Time'',
      ''Quote Asset Volume'', ''Number of Trades'', ''Taker Buy Base Asset Volume'',
      ''Taker Buy Quote Asset Volume'', ''Ignore'']"

definition numeric_cols :: "string list" where
  "numeric_cols = [''Open'', ''High'', ''Low'', ''Close'', ''Volume'']"

definition ohlcv_columns :: "string list" where
  "ohlcv_columns = [''Open Time'', ''Open'', ''High'', ''Low'', ''Close'', ''Volume'']"

section \<open>\<^verbatim>\<open>download_binance_ohlcv\<close>\<close>

text \<open>\<^verbatim>\<open>df[label] = f(df[label])\<close>.\<close>

definition convert_column ::
  "('n cell list \<Rightarrow> exn + 'n cell list) \<Rightarrow> string \<Rightarrow> 'n frame \<Rightarrow> exn + 'n frame" where
  "convert_column f label df =
     bind_exn (get_series label df) (\<lambda>cells.
     bind_exn (f cells) (\<lambda>cells'. Inr (set_series label cells' df)))"

text \<open>Lines 108 to 121: from the raw candles to the six-column frame.\<close>

definition binance_frame :: "'n env \<Rightarrow> 'n cell list list \<Rightarrow> exn + 'n frame" where
  "binance_frame env klines =
     bind_exn (DataFrame klines kline_columns) (\<lambda>df.
     bind_exn (convert_column (to_datetime env) ''Open Time'' df) (\<lambda>df.
     bind_exn (convert_column (to_datetime env) ''Close Time'' df) (\<lambda>df.
     bind_exn (foldl (\<lambda>r col. bind_exn r (convert_column (to_numeric Coerce env) col))
                 (Inr df) numeric_cols) (\<lambda>df.
     select_columns ohlcv_columns df))))"

text \<open>\<^verbatim>\<open>int(datetime.strptime(date_str, "%Y-%m-%d").timestamp() * 1000)\<close>.\<close>

definition date_to_ms :: "'n env \<Rightarrow> string \<Rightarrow> exn + int" where
  "date_to_ms env date_str =
     bind_exn (strptime date_str) (\<lambda>d.
     bind_exn (local_timestamp env d) (\<lambda>seconds. Inr (seconds * 1000)))"

text \<open>The body of the \<^verbatim>\<open>try\<close> block, lines 76 to 124.\<close>

definition binance_fetch ::
  "'n env \<Rightarrow> string \<Rightarrow> string \<Rightarrow> string \<Rightarrow> world \<Rightarrow> (exn + 'n frame) \<times> world" where
  "binance_fetch env symbol start_date end_date w =
     (let w1 = emit NewClient w in
      case client_init env (clock w) of
        Some e \<Rightarrow> (Inl e, w1)
      | None \<Rightarrow>
         (case bind_exn (date_to_ms env start_date) (\<lambda>start_ts.
               bind_exn (date_to_ms env end_date) (\<lambda>end_ts. Inr (start_ts, end_ts))) of
            Inl e \<Rightarrow> (Inl e, w1)
          | Inr (start_ts, end_ts) \<Rightarrow>
             (let w2 = emit (GetHistoricalKlines symbol start_ts end_ts) w1 in
              case bind_exn (get_historical_klines env (clock w1) symbol start_ts end_ts)
                     (binance_frame env) of
                Inl e \<Rightarrow> (Inl e, w2)
              | Inr df \<Rightarrow> (Inr df, emit (Print (Downloaded (len df) symbol)) w2))))"

definition download_binance_ohlcv ::
  "'n env \<Rightarrow> string \<Rightarrow> string \<Rightarrow> string \<Rightarrow> world \<Rightarrow> (exn + 'n frame) \<times> world" where
  "download_binance_ohlcv env symbol start_date end_date w =
     (case binance_fetch env symbol start_date end_date
             (emit (Print (DownloadingBinance symbol)) w) of
        (Inr df, w') \<Rightarrow> (Inr df, w')
      | (Inl e, w') \<Rightarrow>
          (Inl e, emit (Print (if cls e = BinanceAPIException then BinanceApiError symbol e
                               else UnexpectedError symbol e)) w'))"

section \<open>\<^verbatim>\<open>download_yahoo_ohlcv\<close>\<close>

text \<open>Lines 159 to 172: from the provider's table to the six-column frame.\<close>

definition yahoo_frame :: "string \<Rightarrow> 'n frame \<Rightarrow> exn + 'n frame" where
  "yahoo_frame symbol df =
     (if df_empty df then Inl (Exn ValueError (''No data returned for '' @ symbol))
      else
        bind_exn (reset_index df) (\<lambda>df.
        bind_exn (select_columns ohlcv_columns (rename ''Date'' ''Open Time'' df)) (\<lambda>df.
        convert_column tz_localize_none ''Open Time'' df)))"

definition download_yahoo_ohlcv ::
  "'n env \<Rightarrow> string \<Rightarrow> string \<Rightarrow> string \<Rightarrow> world \<Rightarrow> (exn + 'n frame) \<times> world" where
  "download_yahoo_ohlcv env symbol start_date end_date w =
     (let w0 = emit (Print (DownloadingYahoo symbol)) w;
          w1 = emit (TickerHistory symbol start_date end_date) w0
      in case bind_exn (ticker_history env (clock w0) symbol start_date end_date)
                (yahoo_frame symbol) of
           Inr df \<Rightarrow> (Inr df, emit (Print (Downloaded (len df) symbol)) w1)
         | Inl e \<Rightarrow> (Inl e, emit (Print (YahooError symbol e)) w1))"

section \<open>\<^verbatim>\<open>save_to_csv\<close>\<close>

text \<open>
  \<^verbatim>\<open>df.to_csv(filename, index=False)\<close> writes the labels as the first line and one
  line per row, without the index; a field that holds a comma, a double quote or a line
  break is quoted. The text of a cell (a float, a timestamp) is the environment's
  \<open>cell_text\<close>, which sees the cell's column and its position.
\<close>

definition csv_field :: "string \<Rightarrow> string" where
  "csv_field s =
     (if list_ex (\<lambda>c. c = CHR '','' \<or> c = CHR 0x22 \<or> c = CHR 0x0A \<or> c = CHR 0x0D) s
      then [CHR 0x22] @ concat (map (\<lambda>c. if c = CHR 0x22 then [c, c] else [c]) s) @ [CHR 0x22]
      else s)"

definition row_fields :: "'n env \<Rightarrow> 'n frame \<Rightarrow> nat \<Rightarrow> string list" where
  "row_fields env df i = map (\<lambda>(_, cells). csv_field (cell_text env cells i)) (columns df)"

definition to_csv :: "'n env \<Rightarrow> 'n frame \<Rightarrow> string list" where
  "to_csv env df =
     join '','' (map csv_field (labels df)) #
     map (\<lambda>i. join '','' (row_fields env df i)) [0..<len df]"

text \<open>
  The file is opened for writing, so what was at the path is replaced. When the write
  raises, the model leaves the disk as it was.
\<close>

definition save_to_csv ::
  "'n env \<Rightarrow> 'n frame \<Rightarrow> string \<Rightarrow> world \<Rightarrow> (exn + unit) \<times> world" where
  "save_to_csv env df filename w =
     (let w1 = emit (WriteFile filename) w in
      case disk env (clock w) filename of
        Some e \<Rightarrow> (Inl e, emit (Print (SaveError filename e)) w1)
      | None \<Rightarrow>
          (Inr (), emit (Print (Saved filename))
                     (w1\<lparr>files := (files w1)(filename \<mapsto> to_csv env df)\<rparr>)))"

section \<open>\<^verbatim>\<open>download_asset\<close>\<close>

text \<open>The \<^verbatim>\<open>if\<close>/\<^verbatim>\<open>elif\<close> chain of lines 281 to 290; \<open>None\<close> is the unknown asset.\<close>

definition fetch ::
  "'n env \<Rightarrow> string \<Rightarrow> string \<Rightarrow> string \<Rightarrow> world \<Rightarrow> ((exn + 'n frame) \<times> world) option" where
  "fetch env asset start_date end_date w =
     (if asset = ''btcusdt'' then Some (download_binance_ohlcv env ''BTCUSDT'' start_date end_date w)
      else if asset = ''ethusdt'' then Some (download_binance_ohlcv env ''ETHUSDT'' start_date end_date w)
      else if asset = ''xauusd'' then Some (download_yahoo_ohlcv env ''GC=F'' start_date end_date w)
      else None)"

definition download_asset ::
  "'n env \<Rightarrow> string \<Rightarrow> string \<Rightarrow> string \<Rightarrow> world \<Rightarrow> bool \<times> world" where
  "download_asset env asset start_date end_date w =
     (case fetch env asset start_date end_date w of
        None \<Rightarrow> (False, emit (Print (UnknownAsset asset)) w)
      | Some (Inl e, w1) \<Rightarrow> (False, emit (Print (FailedDownload asset e)) w1)
      | Some (Inr df, w1) \<Rightarrow>
          (case OUTPUT_FILES asset of
             None \<Rightarrow> (False, emit (Print (FailedDownload asset (Exn KeyError asset))) w1)
           | Some filename \<Rightarrow>
               (case save_to_csv env df filename w1 of
                  (Inl e, w2) \<Rightarrow> (False, emit (Print (FailedDownload asset e)) w2)
                | (Inr _, w2) \<Rightarrow> (True, w2))))"

section \<open>\<^verbatim>\<open>parse_arguments\<close> and \<^verbatim>\<open>main\<close>\<close>

text \<open>
  The command line is modelled after \<^verbatim>\<open>argparse\<close> has split it into options:
  \<^verbatim>\<open>--asset\<close>/\<^verbatim>\<open>-a\<close> appends to a list that starts as \<^verbatim>\<open>None\<close> and accepts
  only the supported names (anything else ends the process with status 2);
  \<^verbatim>\<open>--start\<close>/\<^verbatim>\<open>-s\<close> and \<^verbatim>\<open>--end\<close>/\<^verbatim>\<open>-e\<close> store a string, the last one given
  winning.
\<close>

datatype cli_opt = AssetOpt string | StartOpt string | EndOpt string

record args =
  asset_arg :: "string list option"
  start_arg :: string
  end_arg :: string

fun parse_opts :: "cli_opt list \<Rightarrow> args \<Rightarrow> nat + args" where
  "parse_opts [] ns = Inr ns"
| "parse_opts (AssetOpt a # opts) ns =
     (if a \<in> set SUPPORTED_ASSETS
      then parse_opts opts
             (ns\<lparr>asset_arg := Some ((case asset_arg ns of None \<Rightarrow> [] | Some xs \<Rightarrow> xs) @ [a])\<rparr>)
      else Inl 2)"
| "parse_opts (StartOpt s # opts) ns = parse_opts opts (ns\<lparr>start_arg := s\<rparr>)"
| "parse_opts (EndOpt s # opts) ns = parse_opts opts (ns\<lparr>end_arg := s\<rparr>)"

definition parse_arguments :: "'n env \<Rightarrow> cli_opt list \<Rightarrow> nat + args" where
  "parse_arguments env argv =
     parse_opts argv \<lparr>asset_arg = None, start_arg = DEFAULT_START_DATE, end_arg = today env\<rparr>"

text \<open>The \<^verbatim>\<open>for\<close> loop of lines 329 to 334, with its counter.\<close>

fun download_loop ::
  "'n env \<Rightarrow> string \<Rightarrow> string \<Rightarrow> string list \<Rightarrow> nat \<Rightarrow> nat \<Rightarrow> world \<Rightarrow> nat \<times> world" where
  "download_loop env start_date end_date [] i success_count w = (success_count, w)"
| "download_loop env start_date end_date (asset # rest) i success_count w =
     (let w1 = (if i > 0 then emit (Print SingleRule) w else w) in
      case download_asset env asset start_date end_date w1 of
        (ok, w2) \<Rightarrow>
          download_loop env start_date end_date rest (i + 1)
            (if ok then success_count + 1 else success_count) w2)"

text \<open>Lines 315 to 342: what \<^verbatim>\<open>main\<close> does once both dates are valid.\<close>

definition assets_to_download :: "args \<Rightarrow> string list" where
  "assets_to_download a =
     (case asset_arg a of
        None \<Rightarrow> SUPPORTED_ASSETS
      | Some xs \<Rightarrow> if xs \<noteq> [] then xs else SUPPORTED_ASSETS)"

definition print_banner :: "args \<Rightarrow> world \<Rightarrow> world" where
  "print_banner a w =
     emit (Print DoubleRule) (emit (Print (AssetsLine (assets_to_download a)))
       (emit (Print (Period (start_arg a) (end_arg a)))
         (emit (Print Title) (emit (Print DoubleRule) w))))"

definition orchestrate :: "'n env \<Rightarrow> args \<Rightarrow> world \<Rightarrow> nat \<times> world" where
  "orchestrate env a w =
     (let assets = assets_to_download a;
          total_count = length assets
      in case download_loop env (start_arg a) (end_arg a) assets 0 0 (print_banner a w) of
           (success_count, w2) \<Rightarrow>
             (if success_count < total_count then 1 else 0,
              emit (Print DoubleRule) (emit (Print (Complete success_count total_count))
                (emit (Print DoubleRule) w2))))"

text \<open>
  The process: its exit status and the world it leaves. An exception that no handler
  catches would end the process with status 1 as well.
\<close>

definition main :: "'n env \<Rightarrow> cli_opt list \<Rightarrow> world \<Rightarrow> nat \<times> world" where
  "main env argv w =
     (case parse_arguments env argv of
        Inl status \<Rightarrow> (status, w)
      | Inr a \<Rightarrow>
          (case bind_exn (validate_date (start_arg a)) (\<lambda>_. validate_date (end_arg a)) of
             Inl e \<Rightarrow> (1, if cls e = ValueError then emit (Print (DateError e)) w else w)
           | Inr _ \<Rightarrow> orchestrate env a w))"

section \<open>Observations\<close>

text \<open>
  What the claims speak of, read off the events: the fetches that were attempted (each
  adapter announces the provider symbol when it starts), the calls that reach a
  provider, the files whose writing was attempted, and the final tally.
\<close>

fun attempt_of :: "event \<Rightarrow> string list" where
  "attempt_of (Print (DownloadingBinance symbol)) = [symbol]"
| "attempt_of (Print (DownloadingYahoo symbol)) = [symbol]"
| "attempt_of _ = []"

definition attempts :: "event list \<Rightarrow> string list" where
  "attempts evs = concat (map attempt_of evs)"

fun is_provider_call :: "event \<Rightarrow> bool" where
  "is_provider_call NewClient = True"
| "is_provider_call (GetHistoricalKlines _ _ _) = True"
| "is_provider_call (TickerHistory _ _ _) = True"
| "is_provider_call _ = False"

definition provider_calls :: "event list \<Rightarrow> event list" where
  "provider_calls evs = filter is_provider_call evs"

fun write_of :: "event \<Rightarrow> string list" where
  "write_of (WriteFile filename) = [filename]"
| "write_of _ = []"

definition writes :: "event list \<Rightarrow> string list" where
  "writes evs = concat (map write_of evs)"

fun tally_of :: "event \<Rightarrow> (nat \<times> nat) list" where
  "tally_of (Print (Complete success_count total_count)) = [(success_count, total_count)]"
| "tally_of _ = []"

definition tallies :: "event list \<Rightarrow> (nat \<times> nat) list" where
  "tallies evs = concat (map tally_of evs)"

text \<open>The routing of lines 281 to 287, as a table from instrument to provider symbol.\<close>

definition provider_symbol :: "string \<Rightarrow> string option" where
  "provider_symbol = map_of
     [(''btcusdt'', ''BTCUSDT''), (''ethusdt'', ''ETHUSDT''), (''xauusd'', ''GC=F'')]"

text \<open>
  What \<^verbatim>\<open>download_asset\<close> returned for each instrument of the loop, in order: the
  loop itself keeps only their count.
\<close>

fun outcomes ::
  "'n env \<Rightarrow> string \<Rightarrow> string \<Rightarrow> string list \<Rightarrow> nat \<Rightarrow> world \<Rightarrow> bool list" where
  "outcomes env start_date end_date [] i w = []"
| "outcomes env start_date end_date (asset # rest) i w =
     (case download_asset env asset start_date end_date
             (if i > 0 then emit (Print SingleRule) w else w) of
        (ok, w2) \<Rightarrow> ok # outcomes env start_date end_date rest (i + 1) w2)"

text \<open>
  The symbols a run over a list of instruments announces (an unknown instrument
  announces none), and the world after the separator line that the loop prints before
  every instrument but the first.
\<close>

definition routed :: "string \<Rightarrow> string list" where
  "routed asset = (case provider_symbol asset of None \<Rightarrow> [] | Some symbol \<Rightarrow> [symbol])"

definition ruled :: "nat \<Rightarrow> world \<Rightarrow> world" where
  "ruled i w = (if i > 0 then emit (Print SingleRule) w else w)"

text \<open>The \<^verbatim>\<open>--asset\<close> values of a command line, in the order given.\<close>

fun selected :: "cli_opt list \<Rightarrow> string list" where
  "selected [] = []"
| "selected (AssetOpt a # opts) = a # selected opts"
| "selected (_ # opts) = selected opts"

section \<open>The specification's reading of a date in \<^verbatim>\<open>YYYY-MM-DD\<close> form\<close>

text \<open>
  Following the specification's words: four digits, a hyphen, two digits, a hyphen, two
  digits, naming a day of the calendar.
\<close>

definition is_digit :: "char \<Rightarrow> bool" where
  "is_digit c = in_range (CHR ''0'') (CHR ''9'') c"

definition calendar_date_YYYY_MM_DD :: "string \<Rightarrow> bool" where
  "calendar_date_YYYY_MM_DD s =
     (case s of
        [y1, y2, y3, y4, h1, m1, m2, h2, d1, d2] \<Rightarrow>
          list_all is_digit [y1, y2, y3, y4, m1, m2, d1, d2] \<and> h1 = CHR ''-'' \<and> h2 = CHR ''-'' \<and>
          1 \<le> py_int [y1, y2, y3, y4] \<and>
          1 \<le> py_int [m1, m2] \<and> py_int [m1, m2] \<le> 12 \<and>
          1 \<le> py_int [d1, d2] \<and> py_int [d1, d2] \<le> days_in_month (py_int [y1, y2, y3, y4]) (py_int [m1, m2])
      | _ \<Rightarrow> False)"

text \<open>
  What the validator accepts: a year of four digits, a month written with one or two
  digits, a day written with one or two digits or with a blank and one digit, hyphens
  between them, naming a day of the calendar.
\<close>

definition month_text :: "string \<Rightarrow> bool" where
  "month_text m =
     (case m of
        [a] \<Rightarrow> in_range (CHR ''1'') (CHR ''9'') a
      | [a, b] \<Rightarrow> (a = CHR ''1'' \<and> in_range (CHR ''0'') (CHR ''2'') b) \<or>
                  (a = CHR ''0'' \<and> in_range (CHR ''1'') (CHR ''9'') b)
      | _ \<Rightarrow> False)"

definition day_text :: "string \<Rightarrow> bool" where
  "day_text d =
     (case d of
        [a] \<Rightarrow> in_range (CHR ''1'') (CHR ''9'') a
      | [a, b] \<Rightarrow> (a = CHR ''3'' \<and> in_range (CHR ''0'') (CHR ''1'') b) \<or>
                  (in_range (CHR ''1'') (CHR ''2'') a \<and> is_digit b) \<or>
                  ((a = CHR ''0'' \<or> a = CHR '' '') \<and> in_range (CHR ''1'') (CHR ''9'') b)
      | _ \<Rightarrow> False)"

definition accepted_date_text :: "string \<Rightarrow> bool" where
  "accepted_date_text s =
     (list_all is_digit (take 4 s) \<and> length (take 4 s) = 4 \<and>
      take 1 (drop 4 s) = ''-'' \<and>
      (let m = takeWhile (\<lambda>c. c \<noteq> CHR ''-'') (drop 5 s);
           d = drop (6 + length m) s
       in month_text m \<and> take 1 (drop (5 + length m) s) = ''-'' \<and> day_text d \<and>
          1 \<le> py_int (take 4 s) \<and> py_int d \<le> days_in_month (py_int (take 4 s)) (py_int m)))"

section \<open>The normalized record sets\<close>

text \<open>
  What lenient coercion makes of a cell: a number stays, a string that parses becomes
  its number, anything else becomes \<^verbatim>\<open>NaN\<close>.
\<close>

definition coerced :: "'n env \<Rightarrow> 'n cell \<Rightarrow> 'n cell" where
  "coerced env c =
     (case c of
        StrV s \<Rightarrow> (case str_to_num env s of Some x \<Rightarrow> NumV x | None \<Rightarrow> Null)
      | TimeV t \<Rightarrow> Null
      | _ \<Rightarrow> c)"

text \<open>
  The frame the exchange adapter returns for a list of candles, given the converted open
  times; the frame the market-data adapter returns for a provider table; a timestamp
  without a zone; the column of a label; and the provider tables the market-data adapter
  accepts.
\<close>

definition ohlcv_frame ::
  "'n env \<Rightarrow> 'n cell list list \<Rightarrow> 'n cell list \<Rightarrow> 'n frame" where
  "ohlcv_frame env klines open_times =
     \<lparr>index_name = None, index = range_index (length klines),
      columns =
        [(''Open Time'', open_times),
         (''Open'', map (coerced env) (field 1 klines)),
         (''High'', map (coerced env) (field 2 klines)),
         (''Low'', map (coerced env) (field 3 klines)),
         (''Close'', map (coerced env) (field 4 klines)),
         (''Volume'', map (coerced env) (field 5 klines))]\<rparr>"

definition is_naive :: "'n cell \<Rightarrow> bool" where
  "is_naive c = (case c of TimeV t \<Rightarrow> tz t = None | Null \<Rightarrow> True | _ \<Rightarrow> False)"

definition column :: "'n frame \<Rightarrow> string \<Rightarrow> 'n cell list" where
  "column df label = the (map_of (columns df) label)"

definition yahoo_ohlcv_frame :: "'n frame \<Rightarrow> 'n frame" where
  "yahoo_ohlcv_frame t =
     \<lparr>index_name = None, index = range_index (len t),
      columns =
        [(''Open Time'', map strip_tz (index t)),
         (''Open'', column t ''Open''), (''High'', column t ''High''),
         (''Low'', column t ''Low''), (''Close'', column t ''Close''),
         (''Volume'', column t ''Volume'')]\<rparr>"

definition feed_table_ok :: "'n frame \<Rightarrow> bool" where
  "feed_table_ok t =
     (\<not> df_empty t \<and> ''Date'' \<notin> set (labels t) \<and> ''Open Time'' \<notin> set (labels t) \<and>
      set numeric_cols \<subseteq> set (labels t) \<and> is_datetime_column (index t))"

section \<open>A sample environment\<close>

text \<open>
  Concrete surroundings on which the theorems below are instantiated. Numbers are kept
  in hundredths. The exchange answers \<^verbatim>\<open>BTCUSDT\<close> with two candles (one of them with
  a field that is not a number) and \<^verbatim>\<open>ETHUSDT\<close> with an API error; the market-data
  feed answers with a two-row table in the New York zone; the disk refuses the gold
  file.
\<close>

definition demo_klines :: "int cell list list" where
  "demo_klines =
     [[IntV 1735689600000, StrV ''93576.00'', StrV ''95151.15'', StrV ''92888.00'',
       StrV ''94591.79'', StrV ''10373.32'', IntV 1735775999999, StrV ''980000000.00'',
       IntV 1516574, StrV ''5000.00'', StrV ''470000000.00'', StrV ''0''],
      [IntV 1735776000000, StrV ''94591.78'', StrV ''n/a'', StrV ''94201.00'',
       StrV ''96984.79'', StrV ''21970.48'', IntV 1735862399999, StrV ''2100000000.00'',
       IntV 3569079, StrV ''11000.00'', StrV ''1050000000.00'', StrV ''0'']]"

definition demo_table :: "int frame" where
  "demo_table =
     \<lparr>index_name = Some ''Date'',
      index = [TimeV (Timestamp 1735776000000 (Some ''America/New_York'')),
               TimeV (Timestamp 1735862400000 (Some ''America/New_York''))],
      columns = [(''Open'', [NumV 263300, NumV 266500]),
                 (''High'', [NumV 267200, NumV 267500]),
                 (''Low'', [NumV 263000, NumV 264300]),
                 (''Close'', [NumV 265800, NumV 264500]),
                 (''Volume'', [IntV 127, IntV 64]),
                 (''Dividends'', [NumV 0, NumV 0]),
                 (''Stock Splits'', [NumV 0, NumV 0])]\<rparr>"

definition demo_env :: "int env" where
  "demo_env =
     \<lparr>today = ''2025-06-01'',
      client_init = (\<lambda>t. None),
      get_historical_klines = (\<lambda>t symbol start_ts end_ts.
        if symbol = ''BTCUSDT'' then Inr demo_klines
        else Inl (Exn BinanceAPIException ''APIError(code=-1121): Invalid symbol.'')),
      ticker_history = (\<lambda>t symbol start_date end_date. Inr demo_table),
      disk = (\<lambda>t path. if path = ''xauusd_ohlcv_2025.csv''
                         then Some (Exn OSError ''No space left on device'') else None),
      local_timestamp = (\<lambda>(y, m, d). Inr (int d * 86400)),
      str_to_num = map_of
        [(''93576.00'', 9357600), (''95151.15'', 9515115), (''92888.00'', 9288800),
         (''94591.79'', 9459179), (''10373.32'', 1037332), (''94591.78'', 9459178),
         (''94201.00'', 9420100), (''96984.79'', 9698479), (''21970.48'', 2197048)],
      to_datetime_other = (\<lambda>c. Inl (Exn ValueError ''non convertible value'')),
      cell_text = (\<lambda>cells i. case cells ! i of
                     IntV n \<Rightarrow> ''int'' | NumV x \<Rightarrow> ''num'' | TimeV t \<Rightarrow> ''time''
                   | StrV s \<Rightarrow> s | Null \<Rightarrow> [])\<rparr>"

text \<open>The same surroundings with providers that have no rows to give and a disk that works.\<close>

definition empty_table :: "int frame" where
  "empty_table = \<lparr>index_name = Some ''Date'', index = [], columns = columns demo_table\<rparr>"

definition quiet_env :: "int env" where
  "quiet_env =
     demo_env\<lparr>get_historical_klines := (\<lambda>t symbol start_ts end_ts. Inr []),
              ticker_history := (\<lambda>t symbol start_date end_date. Inr empty_table),
              disk := (\<lambda>t path. None)\<rparr>"

definition new_world :: world where
  "new_world = \<lparr>trace = [], files = (\<lambda>path. None)\<rparr>"

section \<open>The date validator: what it accepts\<close>

text \<open>
  The pieces of the regular expression are characterised on an arbitrary string: the
  year and the hyphens match in one way at most, only one month alternative is followed
  by a hyphen, and the first day alternative that matches consumes the whole rest
  exactly when the rest is a day text. From there \<open>strptime\<close> succeeds exactly on the
  accepted date texts.
\<close>

lemma re_Y_eq:
  "re_Y s = (if list_all is_digit (take 4 s) \<and> length (take 4 s) = 4
             then [(take 4 s, drop 4 s)] else [])"
  by (simp add: re_Y_def re_seq_def re_digit_def re_char_def is_digit_def
      split: list.splits)

lemma re_dash_eq:
  "re_dash s = (if take 1 s = ''-'' then [(''-'', drop 1 s)] else [])"
  by (simp add: re_dash_def re_char_def split: list.splits)

lemma in_range_facts [simp]:
  "in_range (CHR ''1'') (CHR ''9'') (CHR ''1'')"
  "\<not> in_range (CHR ''1'') (CHR ''9'') (CHR ''0'')"
  "\<not> in_range (CHR ''1'') (CHR ''9'') (CHR ''-'')"
  "\<not> in_range (CHR ''0'') (CHR ''2'') (CHR ''-'')"
  "\<not> in_range (CHR ''0'') (CHR ''9'') (CHR ''-'')"
  "\<not> in_range (CHR ''0'') (CHR ''1'') (CHR ''-'')"
  "\<not> in_range (CHR ''1'') (CHR ''2'') (CHR ''-'')"
  "in_range (CHR ''1'') (CHR ''9'') (CHR ''3'')"
  "\<not> in_range (CHR ''1'') (CHR ''2'') (CHR ''3'')"
  "\<not> in_range (CHR ''1'') (CHR ''2'') (CHR ''0'')"
  "\<not> in_range (CHR ''1'') (CHR ''9'') (CHR '' '')"
  "\<not> in_range (CHR ''1'') (CHR ''2'') (CHR '' '')"
  by (simp_all add: in_range_def)

lemma in_range_12_19: "in_range (CHR ''1'') (CHR ''2'') c \<Longrightarrow> in_range (CHR ''1'') (CHR ''9'') c"
  by (simp add: in_range_def)

lemma takeWhile_take1 [simp]:
  "take (Suc 0) xs = [c] \<Longrightarrow> takeWhile (\<lambda>x. x \<noteq> c) xs = []"
  by (cases xs) auto

lemma month_dash_eq:
  "concat (map (\<lambda>(m, r3). concat (map (\<lambda>(x, r4). F m r4) (re_dash r3))) (re_m t)) =
     (let m = takeWhile (\<lambda>c. c \<noteq> CHR ''-'') t
      in if month_text m \<and> take 1 (drop (length m) t) = ''-''
         then F m (drop (Suc (length m)) t) else [])"
  by (auto simp add: re_m_def re_alt_def re_seq_def re_char_def re_dash_eq month_text_def Let_def
      split: list.splits)

lemma re_d_day_text: "day_text u \<Longrightarrow> \<exists>rest. re_d u = (u, []) # rest"
  by (auto simp add: re_d_def re_alt_def re_seq_def re_char_def re_digit_def day_text_def is_digit_def
      in_range_12_19 split: list.splits if_splits)

lemma first_re_d_nonempty:
  "\<not> day_text u \<Longrightarrow> re_d u = (d, r) # rest \<Longrightarrow> r \<noteq> []"
  by (auto simp add: re_d_def re_alt_def re_seq_def re_char_def re_digit_def day_text_def is_digit_def
      in_range_12_19 split: list.splits if_splits)

lemma case_map_first:
  "(case map f xs of [] \<Rightarrow> a | x # rest \<Rightarrow> g x) = (case xs of [] \<Rightarrow> a | x # rest \<Rightarrow> g (f x))"
  by (cases xs) auto

lemma digit_not_blank: "is_digit a \<Longrightarrow> a \<noteq> CHR '' ''"
  by (auto simp add: is_digit_def in_range_def)

lemma digit_value_le: "is_digit a \<Longrightarrow> (of_char a :: nat) - 48 \<le> 9"
  by (auto simp add: is_digit_def in_range_def)

lemma py_int_year: "list_all is_digit y \<Longrightarrow> length y = 4 \<Longrightarrow> py_int y \<le> 9999"
proof -
  assume d: "list_all is_digit y" and l: "length y = 4"
  from l obtain a b c e where y: "y = [a, b, c, e]"
    by (cases y; simp; cases "tl y"; simp; cases "tl (tl y)"; simp; cases "tl (tl (tl y))"; simp)
  from d have da: "is_digit a" and db: "is_digit b" and dc: "is_digit c" and de: "is_digit e"
    unfolding y by simp_all
  show ?thesis
  proof -
    define p q r t where "p = (of_char a :: nat) - 48" and "q = (of_char b :: nat) - 48"
      and "r = (of_char c :: nat) - 48" and "t = (of_char e :: nat) - 48"
    have "p \<le> 9" "q \<le> 9" "r \<le> 9" "t \<le> 9"
      using digit_value_le [OF da] digit_value_le [OF db] digit_value_le [OF dc] digit_value_le [OF de]
      by (simp_all add: p_def q_def r_def t_def)
    moreover have "py_int y = 10 * (10 * (10 * p + q) + r) + t"
      unfolding y py_int_def p_def q_def r_def t_def using digit_not_blank [OF da] by simp
    ultimately show ?thesis by simp
  qed
qed

lemma py_int_month: "month_text m \<Longrightarrow> 1 \<le> py_int m \<and> py_int m \<le> 12"
  by (auto simp add: py_int_def month_text_def in_range_def split: list.splits)

lemma py_int_day: "day_text d \<Longrightarrow> 1 \<le> py_int d"
  by (auto simp add: py_int_def day_text_def is_digit_def in_range_def split: list.splits)

lemma format_regex_match_eq:
  "format_regex_match s =
     (if list_all is_digit (take 4 s) \<and> length (take 4 s) = 4 \<and> take 1 (drop 4 s) = ''-''
      then (let m = takeWhile (\<lambda>c. c \<noteq> CHR ''-'') (drop 5 s) in
            if month_text m \<and> take 1 (drop (5 + length m) s) = ''-''
            then (case re_d (drop (6 + length m) s) of
                    [] \<Rightarrow> None
                  | (d, r) # rest \<Rightarrow> Some ((take 4 s, m, d), r))
            else None)
      else None)"
  unfolding format_regex_match_def month_dash_eq
  by (simp add: re_Y_eq re_dash_eq Let_def case_map_first add.commute split: list.splits)

lemma strptime_ok_iff: "(\<exists>d. strptime s = Inr d) \<longleftrightarrow> accepted_date_text s"
proof -
  define m where "m = takeWhile (\<lambda>c. c \<noteq> CHR ''-'') (drop 5 s)"
  define u where "u = drop (6 + length m) s"
  define pre where "pre \<longleftrightarrow> list_all is_digit (take 4 s) \<and> length (take 4 s) = 4 \<and>
    take 1 (drop 4 s) = ''-'' \<and> month_text m \<and> take 1 (drop (5 + length m) s) = ''-''"
  have frm: "format_regex_match s =
      (if pre then (case re_d u of [] \<Rightarrow> None | (d, r) # rest \<Rightarrow> Some ((take 4 s, m, d), r))
       else None)"
    by (simp add: format_regex_match_eq Let_def m_def [symmetric] u_def [symmetric] pre_def)
  have acc: "accepted_date_text s \<longleftrightarrow> pre \<and> day_text u \<and> 1 \<le> py_int (take 4 s) \<and>
      py_int u \<le> days_in_month (py_int (take 4 s)) (py_int m)"
    by (auto simp add: accepted_date_text_def Let_def m_def [symmetric] u_def [symmetric] pre_def)
  show ?thesis
  proof (cases "pre \<and> day_text u")
    case True
    then have pre and dt: "day_text u" by simp_all
    have "strptime s = check_date_fields (py_int (take 4 s)) (py_int m) (py_int u)"
      using re_d_day_text [OF dt] \<open>pre\<close>
      by (auto simp add: strptime_def frm)
    moreover have "py_int (take 4 s) \<le> 9999" using \<open>pre\<close> py_int_year unfolding pre_def by blast
    moreover have "1 \<le> py_int m \<and> py_int m \<le> 12" using \<open>pre\<close> py_int_month unfolding pre_def by blast
    moreover have "1 \<le> py_int u" using dt py_int_day by blast
    ultimately show ?thesis
      using True by (auto simp add: acc check_date_fields_def)
  next
    case False
    have "\<not> (\<exists>d. strptime s = Inr d)"
    proof (cases pre)
      case True
      with False have ndt: "\<not> day_text u" by simp
      show ?thesis
        using first_re_d_nonempty [OF ndt] True
        by (auto simp add: strptime_def frm split: list.splits prod.splits)
    next
      case False
      then show ?thesis by (simp add: strptime_def frm)
    qed
    with False show ?thesis by (auto simp add: acc)
  qed
qed

lemma strptime_raises_ValueError: "strptime s = Inl e \<Longrightarrow> cls e = ValueError"
  unfolding strptime_def check_date_fields_def
  by (simp split: option.splits prod.splits if_splits) auto

lemma validate_date_eq:
  "validate_date s = (if accepted_date_text s then Inr True else Inl (invalid_date_format s))"
proof (cases "strptime s")
  case (Inl e)
  then have "\<not> accepted_date_text s" using strptime_ok_iff [of s] by auto
  with Inl strptime_raises_ValueError [OF Inl] show ?thesis by (simp add: validate_date_def)
next
  case (Inr d)
  then have "accepted_date_text s" using strptime_ok_iff [of s] by blast
  with Inr show ?thesis by (simp add: validate_date_def)
qed

lemma char_eq_of_char: "c = d \<longleftrightarrow> (of_char c :: nat) = of_char d"
  by (simp add: of_char_eq_iff)

lemma two_digit_value:
  "is_digit a \<Longrightarrow> py_int [a, b] = 10 * (of_char a - 48) + (of_char b - 48)"
  by (auto simp add: py_int_def is_digit_def in_range_def)

lemma strict_month_text:
  assumes "is_digit a" "is_digit b" "1 \<le> py_int [a, b]" "py_int [a, b] \<le> 12"
  shows "month_text [a, b]"
  using assms unfolding two_digit_value [OF assms(1)]
  by (auto simp add: month_text_def is_digit_def in_range_def char_eq_of_char [of a])

lemma strict_day_text:
  assumes "is_digit a" "is_digit b" "1 \<le> py_int [a, b]" "py_int [a, b] \<le> 31"
  shows "day_text [a, b]"
  using assms unfolding two_digit_value [OF assms(1)]
  by (auto simp add: day_text_def is_digit_def in_range_def char_eq_of_char [of a])

lemma days_in_month_le: "days_in_month y m \<le> 31"
  by (simp add: days_in_month_def)

lemma digit_not_dash: "is_digit a \<Longrightarrow> a \<noteq> CHR ''-''"
  by (auto simp add: is_digit_def in_range_def)

lemma strict_is_accepted: "calendar_date_YYYY_MM_DD s \<Longrightarrow> accepted_date_text s"
proof -
  assume c: "calendar_date_YYYY_MM_DD s"
  then obtain y1 y2 y3 y4 m1 m2 d1 d2 where
    s: "s = [y1, y2, y3, y4, CHR ''-'', m1, m2, CHR ''-'', d1, d2]"
    by (auto simp add: calendar_date_YYYY_MM_DD_def split: list.splits)
  from c have dg: "is_digit y1" "is_digit y2" "is_digit y3" "is_digit y4"
      "is_digit m1" "is_digit m2" "is_digit d1" "is_digit d2"
    and y: "1 \<le> py_int [y1, y2, y3, y4]"
    and m: "1 \<le> py_int [m1, m2]" "py_int [m1, m2] \<le> 12"
    and d: "1 \<le> py_int [d1, d2]" "py_int [d1, d2] \<le> days_in_month (py_int [y1, y2, y3, y4]) (py_int [m1, m2])"
    unfolding s by (simp_all add: calendar_date_YYYY_MM_DD_def)
  have mt: "month_text [m1, m2]" using strict_month_text dg m by blast
  have "py_int [d1, d2] \<le> 31" using d(2) days_in_month_le le_trans by blast
  then have dt: "day_text [d1, d2]" using strict_day_text dg d(1) by blast
  show ?thesis
    unfolding s accepted_date_text_def
    using dg y d mt dt digit_not_dash [OF dg(5)] digit_not_dash [OF dg(6)]
    by (simp add: Let_def)
qed

text \<open>
  What the code does on every string (of characters below code point 256, the strings of
  this development): \<^verbatim>\<open>validate_date\<close> returns \<^verbatim>\<open>True\<close> exactly on the texts of
  \<open>accepted_date_text\<close> and raises its \<^verbatim>\<open>ValueError\<close>, whose text carries the string, on
  every other one. Every calendar date in the strict \<^verbatim>\<open>YYYY-MM-DD\<close> form is among the
  accepted texts; the converse fails, as shown below.
\<close>

lemma validate_date_cases:
  "(validate_date s = Inr True \<longleftrightarrow> accepted_date_text s) \<and>
   (\<not> accepted_date_text s \<longrightarrow>
      validate_date s =
        Inl (Exn ValueError (''Invalid date format: '' @ s @ ''. Use YYYY-MM-DD format.''))) \<and>
   (calendar_date_YYYY_MM_DD s \<longrightarrow> validate_date s = Inr True)"
  using strict_is_accepted [of s]
  by (auto simp add: validate_date_eq invalid_date_format_def)

lemma validate_date_examples:
  "calendar_date_YYYY_MM_DD ''2024-02-29'' \<and> validate_date ''2024-02-29'' = Inr True \<and>
   \<not> calendar_date_YYYY_MM_DD ''2025/01/05'' \<and>
   validate_date ''2025/01/05'' =
     Inl (Exn ValueError ''Invalid date format: 2025/01/05. Use YYYY-MM-DD format.'')"
proof -
  have a: "calendar_date_YYYY_MM_DD ''2024-02-29''"
    by (simp add: calendar_date_YYYY_MM_DD_def is_digit_def in_range_def
        py_int_def days_in_month_def is_leap_def)
  have b: "\<not> accepted_date_text ''2025/01/05''"
    by (simp add: accepted_date_text_def)
  have c: "\<not> calendar_date_YYYY_MM_DD ''2025/01/05''"
    by (simp add: calendar_date_YYYY_MM_DD_def)
  have "validate_date ''2024-02-29'' = Inr True"
    using validate_date_cases [of "''2024-02-29''"] a by blast
  moreover have "validate_date ''2025/01/05'' =
      Inl (Exn ValueError (''Invalid date format: '' @ ''2025/01/05'' @ ''. Use YYYY-MM-DD format.''))"
    using validate_date_cases [of "''2025/01/05''"] b by blast
  ultimately show ?thesis using a c by simp
qed

text \<open>
  Claim C9 fails on the code. The claim requires the \<^verbatim>\<open>YYYY-MM-DD\<close> form, and so do
  the docstring of \<^verbatim>\<open>validate_date\<close>, which reads
  \<^verbatim>\<open>Validate that a date string is in YYYY-MM-DD format\<close>, and the text of its error,
  which ends in \<^verbatim>\<open>Use YYYY-MM-DD format.\<close> The strings \<^verbatim>\<open>2025-1-5\<close>, whose month and
  day have no zero padding, and \<^verbatim>\<open>2025-01- 5\<close>, whose day holds a blank, are not in
  that form, and \<^verbatim>\<open>validate_date\<close> returns \<^verbatim>\<open>True\<close> on both instead of raising the
  error: \<^verbatim>\<open>strptime\<close> matches \<^verbatim>\<open>%m\<close> and \<^verbatim>\<open>%d\<close> against one or two digits, and
  \<^verbatim>\<open>%d\<close> also against a blank and a digit.
\<close>

theorem validate_date_accepts_unpadded_date:
  "validate_date ''2025-1-5'' = Inr True \<and> \<not> calendar_date_YYYY_MM_DD ''2025-1-5'' \<and>
   validate_date ''2025-01- 5'' = Inr True \<and> \<not> calendar_date_YYYY_MM_DD ''2025-01- 5''"
  by (simp add: validate_date_eq accepted_date_text_def calendar_date_YYYY_MM_DD_def
      is_digit_def in_range_def month_text_def day_text_def py_int_def days_in_month_def Let_def)

section \<open>The orchestrator: traces, tallies and exit status\<close>

text \<open>
  The observations are list homomorphisms, so each step of the program is described by
  what it appends to them; the loop is then handled by induction on the list of
  instruments.
\<close>

lemma trace_emit [simp]: "trace (emit ev w) = trace w @ [ev]"
  by (simp add: emit_def)

lemma files_emit [simp]: "files (emit ev w) = files w"
  by (simp add: emit_def)

lemma attempts_append [simp]: "attempts (xs @ ys) = attempts xs @ attempts ys"
  by (simp add: attempts_def)

lemma attempts_Nil [simp]: "attempts [] = []"
  by (simp add: attempts_def)

lemma attempts_Cons [simp]: "attempts (ev # evs) = attempt_of ev @ attempts evs"
  by (simp add: attempts_def)

lemma provider_calls_append [simp]:
  "provider_calls (xs @ ys) = provider_calls xs @ provider_calls ys"
  by (simp add: provider_calls_def)

lemma provider_calls_Nil [simp]: "provider_calls [] = []"
  by (simp add: provider_calls_def)

lemma provider_calls_Cons [simp]:
  "provider_calls (ev # evs) = (if is_provider_call ev then ev # provider_calls evs else provider_calls evs)"
  by (simp add: provider_calls_def)

lemma writes_append [simp]: "writes (xs @ ys) = writes xs @ writes ys"
  by (simp add: writes_def)

lemma writes_Nil [simp]: "writes [] = []"
  by (simp add: writes_def)

lemma writes_Cons [simp]: "writes (ev # evs) = write_of ev @ writes evs"
  by (simp add: writes_def)

lemma tallies_append [simp]: "tallies (xs @ ys) = tallies xs @ tallies ys"
  by (simp add: tallies_def)

lemma tallies_Nil [simp]: "tallies [] = []"
  by (simp add: tallies_def)

lemma tallies_Cons [simp]: "tallies (ev # evs) = tally_of ev @ tallies evs"
  by (simp add: tallies_def)

subsection \<open>What each step adds to the trace\<close>

lemma binance_fetch_trace:
  "attempts (trace (snd (binance_fetch env symbol s e w))) = attempts (trace w)"
  "writes (trace (snd (binance_fetch env symbol s e w))) = writes (trace w)"
  "tallies (trace (snd (binance_fetch env symbol s e w))) = tallies (trace w)"
  "files (snd (binance_fetch env symbol s e w)) = files w"
  by (simp_all add: binance_fetch_def Let_def split: option.splits sum.splits prod.splits)

lemma download_binance_trace:
  "attempts (trace (snd (download_binance_ohlcv env symbol s e w))) = attempts (trace w) @ [symbol]"
  "writes (trace (snd (download_binance_ohlcv env symbol s e w))) = writes (trace w)"
  "tallies (trace (snd (download_binance_ohlcv env symbol s e w))) = tallies (trace w)"
  "files (snd (download_binance_ohlcv env symbol s e w)) = files w"
  using binance_fetch_trace [of env symbol s e "emit (Print (DownloadingBinance symbol)) w"]
  by (auto simp add: download_binance_ohlcv_def split: sum.splits prod.splits)

lemma download_yahoo_trace:
  "attempts (trace (snd (download_yahoo_ohlcv env symbol s e w))) = attempts (trace w) @ [symbol]"
  "writes (trace (snd (download_yahoo_ohlcv env symbol s e w))) = writes (trace w)"
  "tallies (trace (snd (download_yahoo_ohlcv env symbol s e w))) = tallies (trace w)"
  "files (snd (download_yahoo_ohlcv env symbol s e w)) = files w"
  by (simp_all add: download_yahoo_ohlcv_def Let_def split: sum.splits)

lemma fetch_trace:
  assumes "fetch env asset s e w = Some (r, w1)"
  shows "attempts (trace w1) = attempts (trace w) @ [the (provider_symbol asset)]"
    and "writes (trace w1) = writes (trace w)"
    and "tallies (trace w1) = tallies (trace w)"
    and "files w1 = files w"
    and "asset \<in> set SUPPORTED_ASSETS"
  using assms
    download_binance_trace [of env "''BTCUSDT''" s e w]
    download_binance_trace [of env "''ETHUSDT''" s e w]
    download_yahoo_trace [of env "''GC=F''" s e w]
  by (auto simp add: fetch_def provider_symbol_def SUPPORTED_ASSETS_def split: if_splits)

lemma fetch_None: "fetch env asset s e w = None \<longleftrightarrow> asset \<notin> set SUPPORTED_ASSETS"
  by (simp add: fetch_def SUPPORTED_ASSETS_def)

lemma provider_symbol_None: "provider_symbol asset = None \<longleftrightarrow> asset \<notin> set SUPPORTED_ASSETS"
  by (simp add: provider_symbol_def SUPPORTED_ASSETS_def)

lemma save_to_csv_trace:
  "attempts (trace (snd (save_to_csv env df filename w))) = attempts (trace w)"
  "writes (trace (snd (save_to_csv env df filename w))) = writes (trace w) @ [filename]"
  "tallies (trace (snd (save_to_csv env df filename w))) = tallies (trace w)"
  by (simp_all add: save_to_csv_def Let_def split: option.splits)

lemma download_asset_unfold:
  "download_asset env asset s e w =
     (case fetch env asset s e w of
        None \<Rightarrow> (False, emit (Print (UnknownAsset asset)) w)
      | Some (Inl ex, w1) \<Rightarrow> (False, emit (Print (FailedDownload asset ex)) w1)
      | Some (Inr df, w1) \<Rightarrow>
          (case OUTPUT_FILES asset of
             None \<Rightarrow> (False, emit (Print (FailedDownload asset (Exn KeyError asset))) w1)
           | Some filename \<Rightarrow>
               (case fst (save_to_csv env df filename w1) of
                  Inl ex \<Rightarrow> (False, emit (Print (FailedDownload asset ex))
                                       (snd (save_to_csv env df filename w1)))
                | Inr u \<Rightarrow> (True, snd (save_to_csv env df filename w1)))))"
  by (simp add: download_asset_def split: option.splits sum.splits prod.splits)

lemma download_asset_attempts:
  "attempts (trace (snd (download_asset env asset s e w))) = attempts (trace w) @ routed asset"
proof (cases "fetch env asset s e w")
  case None
  then show ?thesis
    using fetch_None [of env asset s e w] provider_symbol_None [of asset]
    by (simp add: download_asset_unfold routed_def)
next
  case (Some p)
  obtain r w1 where p: "p = (r, w1)" by (cases p)
  have sup: "asset \<in> set SUPPORTED_ASSETS" using fetch_trace(5) Some p by blast
  then obtain symbol where sym: "provider_symbol asset = Some symbol"
    using provider_symbol_None [of asset] by auto
  have a1: "attempts (trace w1) = attempts (trace w) @ [symbol]"
    using fetch_trace(1) [of env asset s e w r w1] Some p sym by simp
  show ?thesis
    using Some p a1 sym
    by (simp add: download_asset_unfold routed_def save_to_csv_trace
        split: sum.splits option.splits)
qed

lemma download_asset_tallies:
  "tallies (trace (snd (download_asset env asset s e w))) = tallies (trace w)"
proof (cases "fetch env asset s e w")
  case None
  then show ?thesis by (simp add: download_asset_unfold)
next
  case (Some p)
  obtain r w1 where p: "p = (r, w1)" by (cases p)
  have a1: "tallies (trace w1) = tallies (trace w)"
    using fetch_trace(3) [of env asset s e w r w1] Some p by simp
  show ?thesis
    using Some p a1
    by (simp add: download_asset_unfold save_to_csv_trace split: sum.splits option.splits)
qed

lemma download_asset_writes:
  "\<exists>ws. writes (trace (snd (download_asset env asset s e w))) = writes (trace w) @ ws \<and>
        subseq ws (case OUTPUT_FILES asset of None \<Rightarrow> [] | Some f \<Rightarrow> [f])"
proof (cases "fetch env asset s e w")
  case None
  then show ?thesis by (simp add: download_asset_unfold)
next
  case (Some p)
  obtain r w1 where p: "p = (r, w1)" by (cases p)
  have a1: "writes (trace w1) = writes (trace w)"
    using fetch_trace(2) [of env asset s e w r w1] Some p by simp
  show ?thesis
  proof (cases r)
    case (Inl ex)
    with Some p a1 show ?thesis by (simp add: download_asset_unfold)
  next
    case (Inr df)
    show ?thesis
    proof (cases "OUTPUT_FILES asset")
      case None
      with Some p a1 Inr show ?thesis by (simp add: download_asset_unfold)
    next
      case (Some f)
      have "writes (trace (snd (save_to_csv env df f w1))) = writes (trace w) @ [f]"
        using save_to_csv_trace(2) [of env df f w1] a1 by simp
      then have "writes (trace (snd (download_asset env asset s e w))) = writes (trace w) @ [f]"
        using \<open>fetch env asset s e w = Some p\<close> p Inr Some
        by (simp add: download_asset_unfold split: sum.splits)
      then show ?thesis using Some by simp
    qed
  qed
qed

lemma ruled_trace [simp]:
  "attempts (trace (ruled i w)) = attempts (trace w)"
  "writes (trace (ruled i w)) = writes (trace w)"
  "tallies (trace (ruled i w)) = tallies (trace w)"
  "files (ruled i w) = files w"
  by (simp_all add: ruled_def)

lemma download_loop_Cons:
  "download_loop env s e (a # rest) i n w =
     download_loop env s e rest (i + 1)
       (if fst (download_asset env a s e (ruled i w)) then n + 1 else n)
       (snd (download_asset env a s e (ruled i w)))"
  by (simp add: ruled_def Let_def split: prod.splits)

lemma outcomes_Cons:
  "outcomes env s e (a # rest) i w =
     fst (download_asset env a s e (ruled i w)) #
     outcomes env s e rest (i + 1) (snd (download_asset env a s e (ruled i w)))"
  by (simp add: ruled_def split: prod.splits)

lemma loop_attempts:
  "attempts (trace (snd (download_loop env s e assets i n w))) =
     attempts (trace w) @ concat (map routed assets)"
proof (induction assets arbitrary: i n w)
  case Nil
  then show ?case by simp
next
  case (Cons a rest)
  show ?case
    unfolding download_loop_Cons
    by (simp add: Cons.IH download_asset_attempts)
qed

lemma loop_tallies:
  "tallies (trace (snd (download_loop env s e assets i n w))) = tallies (trace w)"
proof (induction assets arbitrary: i n w)
  case Nil
  then show ?case by simp
next
  case (Cons a rest)
  show ?case
    unfolding download_loop_Cons
    by (simp add: Cons.IH download_asset_tallies)
qed

lemma loop_writes:
  "\<exists>ws. writes (trace (snd (download_loop env s e assets i n w))) = writes (trace w) @ ws \<and>
        subseq ws (concat (map (\<lambda>a. case OUTPUT_FILES a of None \<Rightarrow> [] | Some f \<Rightarrow> [f]) assets))"
proof (induction assets arbitrary: i n w)
  case Nil
  then show ?case by simp
next
  case (Cons a rest)
  obtain ws1 where w1: "writes (trace (snd (download_asset env a s e (ruled i w)))) = writes (trace w) @ ws1"
    and s1: "subseq ws1 (case OUTPUT_FILES a of None \<Rightarrow> [] | Some f \<Rightarrow> [f])"
    using download_asset_writes [of env a s e "ruled i w"] by auto
  obtain ws2 where w2: "writes (trace (snd (download_loop env s e rest (i + 1)
        (if fst (download_asset env a s e (ruled i w)) then n + 1 else n)
        (snd (download_asset env a s e (ruled i w)))))) =
      writes (trace (snd (download_asset env a s e (ruled i w)))) @ ws2"
    and s2: "subseq ws2 (concat (map (\<lambda>a. case OUTPUT_FILES a of None \<Rightarrow> [] | Some f \<Rightarrow> [f]) rest))"
    using Cons.IH by blast
  have "subseq (ws1 @ ws2) (concat (map (\<lambda>a. case OUTPUT_FILES a of None \<Rightarrow> [] | Some f \<Rightarrow> [f]) (a # rest)))"
    using s1 s2 by (simp add: list_emb_append_mono)
  then show ?case
    unfolding download_loop_Cons using w1 w2 by auto
qed

lemma outcomes_length: "length (outcomes env s e assets i w) = length assets"
proof (induction assets arbitrary: i w)
  case Nil
  then show ?case by simp
next
  case (Cons a rest)
  show ?case unfolding outcomes_Cons by (simp add: Cons.IH)
qed

lemma loop_count:
  "fst (download_loop env s e assets i n w) = n + length (filter id (outcomes env s e assets i w))"
proof (induction assets arbitrary: i n w)
  case Nil
  then show ?case by simp
next
  case (Cons a rest)
  show ?case
    unfolding download_loop_Cons outcomes_Cons by (simp add: Cons.IH)
qed

lemma loop_append:
  "download_loop env s e (xs @ ys) i n w =
     download_loop env s e ys (i + length xs)
       (fst (download_loop env s e xs i n w)) (snd (download_loop env s e xs i n w))"
proof (induction xs arbitrary: i n w)
  case Nil
  then show ?case by simp
next
  case (Cons a rest)
  show ?case
    unfolding append_Cons download_loop_Cons by (simp add: Cons.IH)
qed

lemma routed_supported:
  "set assets \<subseteq> set SUPPORTED_ASSETS \<Longrightarrow>
   concat (map routed assets) = map (\<lambda>a. the (provider_symbol a)) assets"
  by (induction assets) (auto simp add: routed_def provider_symbol_def SUPPORTED_ASSETS_def)

lemma parse_opts_asset:
  "parse_opts opts ns = Inr a \<Longrightarrow>
   asset_arg a = (if selected opts = [] then asset_arg ns
                  else Some ((case asset_arg ns of None \<Rightarrow> [] | Some xs \<Rightarrow> xs) @ selected opts)) \<and>
   set (selected opts) \<subseteq> set SUPPORTED_ASSETS"
proof (induction opts arbitrary: ns)
  case Nil
  then show ?case by simp
next
  case (Cons opt opts)
  show ?case
  proof (cases opt)
    case (AssetOpt x)
    with Cons.prems have sup: "x \<in> set SUPPORTED_ASSETS"
      and rest: "parse_opts opts
         (ns\<lparr>asset_arg := Some ((case asset_arg ns of None \<Rightarrow> [] | Some xs \<Rightarrow> xs) @ [x])\<rparr>) = Inr a"
      by (simp_all split: if_splits)
    from Cons.IH [OF rest] sup show ?thesis
      by (simp add: AssetOpt)
  next
    case (StartOpt x)
    with Cons.prems have "parse_opts opts (ns\<lparr>start_arg := x\<rparr>) = Inr a" by simp
    from Cons.IH [OF this] show ?thesis by (simp add: StartOpt)
  next
    case (EndOpt x)
    with Cons.prems have "parse_opts opts (ns\<lparr>end_arg := x\<rparr>) = Inr a" by simp
    from Cons.IH [OF this] show ?thesis by (simp add: EndOpt)
  qed
qed

lemma parse_arguments_assets:
  assumes "parse_arguments env argv = Inr a"
  shows "asset_arg a = (if selected argv = [] then None else Some (selected argv))"
    and "assets_to_download a = (if selected argv = [] then SUPPORTED_ASSETS else selected argv)"
    and "set (assets_to_download a) \<subseteq> set SUPPORTED_ASSETS"
proof -
  from assms have p: "parse_opts argv
      \<lparr>asset_arg = None, start_arg = DEFAULT_START_DATE, end_arg = today env\<rparr> = Inr a"
    by (simp add: parse_arguments_def)
  from parse_opts_asset [OF p]
  show a: "asset_arg a = (if selected argv = [] then None else Some (selected argv))"
    by simp
  from a show b: "assets_to_download a = (if selected argv = [] then SUPPORTED_ASSETS else selected argv)"
    by (simp add: assets_to_download_def)
  from b parse_opts_asset [OF p] show "set (assets_to_download a) \<subseteq> set SUPPORTED_ASSETS"
    by (simp split: if_splits)
qed

lemma main_valid:
  assumes "parse_arguments env argv = Inr a"
    and "validate_date (start_arg a) = Inr True" and "validate_date (end_arg a) = Inr True"
  shows "main env argv w = orchestrate env a w"
  using assms by (simp add: main_def bind_exn_def)

lemma main_invalid:
  assumes "parse_arguments env argv = Inr a"
    and "validate_date (start_arg a) \<noteq> Inr True \<or> validate_date (end_arg a) \<noteq> Inr True"
  shows "\<exists>e. main env argv w = (1, emit (Print (DateError e)) w)"
  using assms
  by (auto simp add: main_def bind_exn_def validate_date_eq invalid_date_format_def
      split: if_splits)

lemma print_banner_trace [simp]:
  "attempts (trace (print_banner a w)) = attempts (trace w)"
  "writes (trace (print_banner a w)) = writes (trace w)"
  "tallies (trace (print_banner a w)) = tallies (trace w)"
  "files (print_banner a w) = files w"
  by (simp_all add: print_banner_def)

lemma orchestrate_unfold:
  "orchestrate env a w =
     (let r = download_loop env (start_arg a) (end_arg a) (assets_to_download a) 0 0
                (print_banner a w)
      in (if fst r < length (assets_to_download a) then 1 else 0,
          emit (Print DoubleRule)
            (emit (Print (Complete (fst r) (length (assets_to_download a))))
              (emit (Print DoubleRule) (snd r)))))"
  by (simp add: orchestrate_def Let_def split: prod.splits)

lemma filter_id_all: "length (filter id bs) = length bs \<longleftrightarrow> list_all id bs"
  by (induction bs) (auto simp add: le_imp_less_Suc length_filter_le less_not_refl3 dest: arg_cong)

text \<open>
  Claim C2. When the start date or the end date of an invocation fails
  \<^verbatim>\<open>validate_date\<close>, the process ends with status 1, and between its start and its end
  no call reaches a provider, no fetch is attempted, no file is written and the disk is
  unchanged.
\<close>

theorem invalid_date_exits_before_any_provider_call:
  assumes "parse_arguments env argv = Inr a"
    and "validate_date (start_arg a) \<noteq> Inr True \<or> validate_date (end_arg a) \<noteq> Inr True"
  shows "fst (main env argv w) = 1 \<and>
         provider_calls (trace (snd (main env argv w))) = provider_calls (trace w) \<and>
         attempts (trace (snd (main env argv w))) = attempts (trace w) \<and>
         writes (trace (snd (main env argv w))) = writes (trace w) \<and>
         files (snd (main env argv w)) = files w"
proof -
  from main_invalid [OF assms] obtain e where
    "main env argv w = (1, emit (Print (DateError e)) w)" by blast
  then show ?thesis by simp
qed

theorem invalid_date_exits_before_any_provider_call_witness:
  "parse_arguments demo_env [StartOpt ''2025/01/01''] =
     Inr \<lparr>asset_arg = None, start_arg = ''2025/01/01'', end_arg = ''2025-06-01''\<rparr> \<and>
   validate_date ''2025/01/01'' \<noteq> Inr True \<and>
   fst (main demo_env [StartOpt ''2025/01/01''] new_world) = 1 \<and>
   provider_calls (trace (snd (main demo_env [StartOpt ''2025/01/01''] new_world))) = [] \<and>
   files (snd (main demo_env [StartOpt ''2025/01/01''] new_world)) = (\<lambda>path. None)"
proof -
  have p: "parse_arguments demo_env [StartOpt ''2025/01/01''] =
      Inr \<lparr>asset_arg = None, start_arg = ''2025/01/01'', end_arg = ''2025-06-01''\<rparr>"
    by (simp add: parse_arguments_def demo_env_def)
  have v: "validate_date ''2025/01/01'' \<noteq> Inr True"
    by (simp add: validate_date_eq accepted_date_text_def)
  have "validate_date (start_arg \<lparr>asset_arg = None, start_arg = ''2025/01/01'', end_arg = ''2025-06-01''\<rparr>) \<noteq> Inr True
      \<or> validate_date (end_arg \<lparr>asset_arg = None, start_arg = ''2025/01/01'', end_arg = ''2025-06-01''\<rparr>) \<noteq> Inr True"
    using v by simp
  from invalid_date_exits_before_any_provider_call [OF p this, of new_world] p v
  show ?thesis by (simp add: new_world_def)
qed

lemma main_tally:
  assumes "parse_arguments env argv = Inr a"
    and "validate_date (start_arg a) = Inr True" and "validate_date (end_arg a) = Inr True"
  shows "\<exists>success_count total_count.
           tallies (trace (snd (main env argv w))) = tallies (trace w) @ [(success_count, total_count)] \<and>
           total_count = length (assets_to_download a) \<and>
           success_count = length (filter id
             (outcomes env (start_arg a) (end_arg a) (assets_to_download a) 0 (print_banner a w))) \<and>
           (fst (main env argv w) \<noteq> 0 \<longleftrightarrow> success_count < total_count) \<and>
           (fst (main env argv w) = 0 \<longleftrightarrow>
              list_all id (outcomes env (start_arg a) (end_arg a) (assets_to_download a) 0
                (print_banner a w)))"
proof -
  define os where "os = outcomes env (start_arg a) (end_arg a) (assets_to_download a) 0 (print_banner a w)"
  define r where "r = download_loop env (start_arg a) (end_arg a) (assets_to_download a) 0 0 (print_banner a w)"
  have m: "main env argv w =
      (if fst r < length (assets_to_download a) then 1 else 0,
       emit (Print DoubleRule) (emit (Print (Complete (fst r) (length (assets_to_download a))))
         (emit (Print DoubleRule) (snd r))))"
    unfolding main_valid [OF assms] orchestrate_unfold r_def by (simp add: Let_def)
  have c: "fst r = length (filter id os)"
    unfolding r_def os_def using loop_count [of env _ _ _ 0 0] by simp
  have l: "length os = length (assets_to_download a)"
    unfolding os_def by (rule outcomes_length)
  have le: "length (filter id os) \<le> length os" by (rule length_filter_le)
  have t: "tallies (trace (snd r)) = tallies (trace w)"
    unfolding r_def by (simp add: loop_tallies)
  have all: "list_all id os \<longleftrightarrow> length (filter id os) = length os"
    using filter_id_all [of os] by simp
  show ?thesis
    unfolding os_def [symmetric]
    using m c l le t all by (auto simp add: m)
qed

text \<open>
  Claim C3. When both dates are valid, the run prints one tally
  \<open>(success_count, total_count)\<close>: the total is the number of instruments to download,
  the successes are the instruments for which \<^verbatim>\<open>download_asset\<close> returned
  \<^verbatim>\<open>True\<close>, the exit status is non-zero exactly when
  \<open>success_count < total_count\<close>, and it is 0 exactly when every instrument succeeded.
\<close>

theorem exit_status_reflects_tally:
  assumes "parse_arguments env argv = Inr a"
    and "validate_date (start_arg a) = Inr True" and "validate_date (end_arg a) = Inr True"
  shows "\<exists>success_count total_count.
           tallies (trace (snd (main env argv w))) = tallies (trace w) @ [(success_count, total_count)] \<and>
           total_count = length (assets_to_download a) \<and>
           success_count = length (filter id
             (outcomes env (start_arg a) (end_arg a) (assets_to_download a) 0 (print_banner a w))) \<and>
           (fst (main env argv w) \<noteq> 0 \<longleftrightarrow> success_count < total_count) \<and>
           (fst (main env argv w) = 0 \<longleftrightarrow>
              list_all id (outcomes env (start_arg a) (end_arg a) (assets_to_download a) 0
                (print_banner a w)))"
  using main_tally [OF assms] .

lemma demo_default_args:
  "parse_arguments demo_env [] =
     Inr \<lparr>asset_arg = None, start_arg = ''2025-01-01'', end_arg = ''2025-06-01''\<rparr>"
  by (simp add: parse_arguments_def demo_env_def DEFAULT_START_DATE_def)

lemma demo_dates:
  "validate_date ''2025-01-01'' = Inr True" "validate_date ''2025-06-01'' = Inr True"
  by code_simp+

theorem exit_status_reflects_tally_witness:
  "parse_arguments demo_env [] =
     Inr \<lparr>asset_arg = None, start_arg = ''2025-01-01'', end_arg = ''2025-06-01''\<rparr> \<and>
   validate_date ''2025-01-01'' = Inr True \<and> validate_date ''2025-06-01'' = Inr True \<and>
   tallies (trace (snd (main demo_env [] new_world))) = [(1, 3)] \<and>
   fst (main demo_env [] new_world) \<noteq> 0"
proof -
  define a where "a = \<lparr>asset_arg = None, start_arg = ''2025-01-01'', end_arg = ''2025-06-01''\<rparr>"
  have p: "parse_arguments demo_env [] = Inr a"
    unfolding a_def by (rule demo_default_args)
  have v: "validate_date (start_arg a) = Inr True" "validate_date (end_arg a) = Inr True"
    unfolding a_def using demo_dates by simp_all
  have as: "assets_to_download a = [''btcusdt'', ''ethusdt'', ''xauusd'']"
    unfolding a_def by (simp add: assets_to_download_def SUPPORTED_ASSETS_def)
  have os: "outcomes demo_env (start_arg a) (end_arg a) [''btcusdt'', ''ethusdt'', ''xauusd''] 0
      (print_banner a new_world) = [True, False, False]"
    unfolding a_def by code_simp
  have t0: "tallies (trace new_world) = []" by (simp add: new_world_def)
  from exit_status_reflects_tally [OF p v, of new_world]
  have "tallies (trace (snd (main demo_env [] new_world))) = [(1, 3)] \<and>
        fst (main demo_env [] new_world) \<noteq> 0"
    unfolding as os t0 by simp
  with p v show ?thesis unfolding a_def by simp
qed

lemma main_attempts:
  assumes "parse_arguments env argv = Inr a"
    and "validate_date (start_arg a) = Inr True" and "validate_date (end_arg a) = Inr True"
  shows "assets_to_download a =
           (if selected argv = [] then [''btcusdt'', ''ethusdt'', ''xauusd''] else selected argv) \<and>
         list_all (\<lambda>asset. provider_symbol asset \<noteq> None) (assets_to_download a) \<and>
         attempts (trace (snd (main env argv w))) =
           attempts (trace w) @ map (\<lambda>asset. the (provider_symbol asset)) (assets_to_download a) \<and>
         (\<exists>ws. writes (trace (snd (main env argv w))) = writes (trace w) @ ws \<and>
               subseq ws (map (\<lambda>asset. the (OUTPUT_FILES asset)) (assets_to_download a)))"
proof -
  note pa = parse_arguments_assets [OF assms(1)]
  define r where "r = download_loop env (start_arg a) (end_arg a) (assets_to_download a) 0 0 (print_banner a w)"
  have m: "snd (main env argv w) =
       emit (Print DoubleRule) (emit (Print (Complete (fst r) (length (assets_to_download a))))
         (emit (Print DoubleRule) (snd r)))"
    unfolding main_valid [OF assms] orchestrate_unfold r_def by (simp add: Let_def)
  have 1: "assets_to_download a =
      (if selected argv = [] then [''btcusdt'', ''ethusdt'', ''xauusd''] else selected argv)"
    using pa(2) by (simp add: SUPPORTED_ASSETS_def)
  have 2: "list_all (\<lambda>asset. provider_symbol asset \<noteq> None) (assets_to_download a)"
    using pa(3) provider_symbol_None by (auto simp add: list_all_iff)
  have 3: "attempts (trace (snd (main env argv w))) =
      attempts (trace w) @ map (\<lambda>asset. the (provider_symbol asset)) (assets_to_download a)"
    unfolding m r_def by (simp add: loop_attempts routed_supported [OF pa(3)])
  have files_map: "concat (map (\<lambda>a. case OUTPUT_FILES a of None \<Rightarrow> [] | Some f \<Rightarrow> [f]) xs) =
      map (\<lambda>asset. the (OUTPUT_FILES asset)) xs" if "set xs \<subseteq> set SUPPORTED_ASSETS" for xs
    using that by (induction xs) (auto simp add: OUTPUT_FILES_def SUPPORTED_ASSETS_def)
  obtain ws where "writes (trace (snd r)) = writes (trace w) @ ws"
    and "subseq ws (map (\<lambda>asset. the (OUTPUT_FILES asset)) (assets_to_download a))"
    using loop_writes [of env "start_arg a" "end_arg a" "assets_to_download a" 0 0 "print_banner a w"]
    unfolding r_def files_map [OF pa(3)] by auto
  then have 4: "\<exists>ws. writes (trace (snd (main env argv w))) = writes (trace w) @ ws \<and>
               subseq ws (map (\<lambda>asset. the (OUTPUT_FILES asset)) (assets_to_download a))"
    unfolding m by auto
  from 1 2 3 4 show ?thesis by blast
qed

text \<open>
  Claim C4. When both dates are valid, the instruments to download are the
  \<^verbatim>\<open>--asset\<close> values in the order given, or btcusdt, ethusdt, xauusd when none is
  given; each of them is routed to a provider symbol; the fetches attempted are exactly
  those symbols, one per instrument and in that order; and the files whose writing is
  attempted are a subsequence of the instruments' files, so at most one export per
  instrument, in order.
\<close>

theorem one_attempt_per_selected_instrument:
  assumes "parse_arguments env argv = Inr a"
    and "validate_date (start_arg a) = Inr True" and "validate_date (end_arg a) = Inr True"
  shows "assets_to_download a =
           (if selected argv = [] then [''btcusdt'', ''ethusdt'', ''xauusd''] else selected argv) \<and>
         list_all (\<lambda>asset. provider_symbol asset \<noteq> None) (assets_to_download a) \<and>
         attempts (trace (snd (main env argv w))) =
           attempts (trace w) @ map (\<lambda>asset. the (provider_symbol asset)) (assets_to_download a) \<and>
         (\<exists>ws. writes (trace (snd (main env argv w))) = writes (trace w) @ ws \<and>
               subseq ws (map (\<lambda>asset. the (OUTPUT_FILES asset)) (assets_to_download a)))"
  using main_attempts [OF assms] .

theorem one_attempt_per_selected_instrument_witness:
  "parse_arguments demo_env [] =
     Inr \<lparr>asset_arg = None, start_arg = ''2025-01-01'', end_arg = ''2025-06-01''\<rparr> \<and>
   parse_arguments demo_env [AssetOpt ''xauusd'', AssetOpt ''btcusdt''] =
     Inr \<lparr>asset_arg = Some [''xauusd'', ''btcusdt''], start_arg = ''2025-01-01'',
          end_arg = ''2025-06-01''\<rparr> \<and>
   validate_date ''2025-01-01'' = Inr True \<and> validate_date ''2025-06-01'' = Inr True \<and>
   attempts (trace (snd (main demo_env [] new_world))) = [''BTCUSDT'', ''ETHUSDT'', ''GC=F''] \<and>
   attempts (trace (snd (main demo_env [AssetOpt ''xauusd'', AssetOpt ''btcusdt''] new_world))) =
     [''GC=F'', ''BTCUSDT'']"
proof -
  define a where "a = \<lparr>asset_arg = None, start_arg = ''2025-01-01'', end_arg = ''2025-06-01''\<rparr>"
  define b where "b = \<lparr>asset_arg = Some [''xauusd'', ''btcusdt''], start_arg = ''2025-01-01'',
    end_arg = ''2025-06-01''\<rparr>"
  have p: "parse_arguments demo_env [] = Inr a"
    unfolding a_def by (rule demo_default_args)
  have q: "parse_arguments demo_env [AssetOpt ''xauusd'', AssetOpt ''btcusdt''] = Inr b"
    unfolding b_def
    by (simp add: parse_arguments_def demo_env_def DEFAULT_START_DATE_def SUPPORTED_ASSETS_def)
  have v: "validate_date (start_arg a) = Inr True" "validate_date (end_arg a) = Inr True"
    unfolding a_def using demo_dates by simp_all
  have v': "validate_date (start_arg b) = Inr True" "validate_date (end_arg b) = Inr True"
    unfolding b_def using demo_dates by simp_all
  have as: "assets_to_download a = [''btcusdt'', ''ethusdt'', ''xauusd'']"
    unfolding a_def by (simp add: assets_to_download_def SUPPORTED_ASSETS_def)
  have bs: "assets_to_download b = [''xauusd'', ''btcusdt'']"
    unfolding b_def by (simp add: assets_to_download_def)
  from one_attempt_per_selected_instrument [OF p v, of new_world]
  have 1: "attempts (trace (snd (main demo_env [] new_world))) = [''BTCUSDT'', ''ETHUSDT'', ''GC=F'']"
    unfolding as by (simp add: new_world_def provider_symbol_def)
  from one_attempt_per_selected_instrument [OF q v', of new_world]
  have 2: "attempts (trace (snd (main demo_env [AssetOpt ''xauusd'', AssetOpt ''btcusdt''] new_world))) =
      [''GC=F'', ''BTCUSDT'']"
    unfolding bs by (simp add: new_world_def provider_symbol_def)
  from p q v 1 2 show ?thesis unfolding a_def b_def by simp
qed

text \<open>
  Claim C10. The \<^verbatim>\<open>--asset\<close> values are kept as a list with their repetitions: the
  parsed selection is that list, the fetches attempted are its symbols in order (so an
  instrument named \<open>n\<close> times is fetched \<open>n\<close> times), the total of the tally is the
  length of the list, and its successes are the occurrences whose
  \<^verbatim>\<open>download_asset\<close> returned \<^verbatim>\<open>True\<close>.
\<close>

theorem repeated_selector_is_kept:
  assumes "parse_arguments env argv = Inr a"
    and "validate_date (start_arg a) = Inr True" and "validate_date (end_arg a) = Inr True"
    and "selected argv \<noteq> []"
  shows "asset_arg a = Some (selected argv) \<and>
         attempts (trace (snd (main env argv w))) =
           attempts (trace w) @ map (\<lambda>asset. the (provider_symbol asset)) (selected argv) \<and>
         (\<forall>asset \<in> set (selected argv).
            count_list (map (\<lambda>asset. the (provider_symbol asset)) (selected argv))
              (the (provider_symbol asset)) = count_list (selected argv) asset) \<and>
         tallies (trace (snd (main env argv w))) =
           tallies (trace w) @
           [(length (filter id (outcomes env (start_arg a) (end_arg a) (selected argv) 0 (print_banner a w))),
             length (selected argv))] \<and>
         length (outcomes env (start_arg a) (end_arg a) (selected argv) 0 (print_banner a w)) =
           length (selected argv)"
proof -
  note pa = parse_arguments_assets [OF assms(1)]
  have sel: "assets_to_download a = selected argv" using pa(2) assms(4) by simp
  have 1: "asset_arg a = Some (selected argv)" using pa(1) assms(4) by simp
  have 2: "attempts (trace (snd (main env argv w))) =
           attempts (trace w) @ map (\<lambda>asset. the (provider_symbol asset)) (selected argv)"
    using main_attempts [OF assms(1-3), of w] sel by simp
  have inj: "inj_on (\<lambda>asset. the (provider_symbol asset)) (set (selected argv))"
    using pa(3) unfolding sel
    by (auto simp add: inj_on_def provider_symbol_def SUPPORTED_ASSETS_def)
  have 3: "\<forall>asset \<in> set (selected argv).
            count_list (map (\<lambda>asset. the (provider_symbol asset)) (selected argv))
              (the (provider_symbol asset)) = count_list (selected argv) asset"
    using count_list_inj_map [OF inj] by blast
  have 4: "tallies (trace (snd (main env argv w))) =
           tallies (trace w) @
           [(length (filter id (outcomes env (start_arg a) (end_arg a) (selected argv) 0 (print_banner a w))),
             length (selected argv))]"
    using main_tally [OF assms(1-3), of w] unfolding sel by auto
  from 1 2 3 4 outcomes_length show ?thesis by blast
qed

theorem repeated_selector_is_kept_witness:
  "parse_arguments demo_env [AssetOpt ''btcusdt'', AssetOpt ''btcusdt''] =
     Inr \<lparr>asset_arg = Some [''btcusdt'', ''btcusdt''], start_arg = ''2025-01-01'',
          end_arg = ''2025-06-01''\<rparr> \<and>
   validate_date ''2025-01-01'' = Inr True \<and> validate_date ''2025-06-01'' = Inr True \<and>
   selected [AssetOpt ''btcusdt'', AssetOpt ''btcusdt''] = [''btcusdt'', ''btcusdt''] \<and>
   attempts (trace (snd (main demo_env [AssetOpt ''btcusdt'', AssetOpt ''btcusdt''] new_world))) =
     [''BTCUSDT'', ''BTCUSDT''] \<and>
   tallies (trace (snd (main demo_env [AssetOpt ''btcusdt'', AssetOpt ''btcusdt''] new_world))) =
     [(2, 2)]"
proof -
  define a where "a = \<lparr>asset_arg = Some [''btcusdt'', ''btcusdt''], start_arg = ''2025-01-01'',
          end_arg = ''2025-06-01''\<rparr>"
  define argv where "argv = [AssetOpt ''btcusdt'', AssetOpt ''btcusdt'']"
  have p: "parse_arguments demo_env argv = Inr a"
    unfolding a_def argv_def
    by (simp add: parse_arguments_def demo_env_def DEFAULT_START_DATE_def SUPPORTED_ASSETS_def)
  have v: "validate_date (start_arg a) = Inr True" "validate_date (end_arg a) = Inr True"
    unfolding a_def using demo_dates by simp_all
  have sel: "selected argv = [''btcusdt'', ''btcusdt'']" unfolding argv_def by simp
  have ne: "selected argv \<noteq> []" unfolding sel by simp
  have os: "outcomes demo_env (start_arg a) (end_arg a) [''btcusdt'', ''btcusdt''] 0
      (print_banner a new_world) = [True, True]"
    unfolding a_def by code_simp
  from repeated_selector_is_kept [OF p v ne, of new_world]
  have "attempts (trace (snd (main demo_env argv new_world))) = [''BTCUSDT'', ''BTCUSDT''] \<and>
        tallies (trace (snd (main demo_env argv new_world))) = [(2, 2)]"
    unfolding sel os by (simp add: new_world_def provider_symbol_def)
  with p v sel show ?thesis unfolding a_def argv_def by simp
qed

text \<open>
  Claim C7. An exception of the fetch (a provider error, an empty result) or of the
  export (an I/O error) makes \<^verbatim>\<open>download_asset\<close> return \<^verbatim>\<open>False\<close> after printing
  the failure; the loop then goes on with the remaining instruments and the count
  unchanged; whatever fails, every instrument of the list is attempted, in order, and
  the loop returns the number of instruments that succeeded. No exception leaves
  \<^verbatim>\<open>download_asset\<close> or the loop: their results are a flag and a count.
\<close>

theorem failures_are_caught_per_instrument:
  "(fetch env asset s e w = Some (Inl ex, w1) \<longrightarrow>
      download_asset env asset s e w = (False, emit (Print (FailedDownload asset ex)) w1)) \<and>
   (fetch env asset s e w = Some (Inr df, w1) \<and> OUTPUT_FILES asset = Some filename \<and>
    save_to_csv env df filename w1 = (Inl ex, w2) \<longrightarrow>
      download_asset env asset s e w = (False, emit (Print (FailedDownload asset ex)) w2)) \<and>
   (\<not> fst (download_asset env asset s e (ruled i w)) \<longrightarrow>
      download_loop env s e (asset # rest) i n w =
        download_loop env s e rest (i + 1) n (snd (download_asset env asset s e (ruled i w)))) \<and>
   attempts (trace (snd (download_loop env s e assets i n w))) =
     attempts (trace w) @ concat (map routed assets) \<and>
   fst (download_loop env s e assets i n w) =
     n + length (filter id (outcomes env s e assets i w)) \<and>
   length (outcomes env s e assets i w) = length assets"
proof -
  have 1: "fetch env asset s e w = Some (Inl ex, w1) \<longrightarrow>
      download_asset env asset s e w = (False, emit (Print (FailedDownload asset ex)) w1)"
    by (simp add: download_asset_def)
  have 2: "fetch env asset s e w = Some (Inr df, w1) \<and> OUTPUT_FILES asset = Some filename \<and>
    save_to_csv env df filename w1 = (Inl ex, w2) \<longrightarrow>
      download_asset env asset s e w = (False, emit (Print (FailedDownload asset ex)) w2)"
    by (simp add: download_asset_def)
  have 3: "\<not> fst (download_asset env asset s e (ruled i w)) \<longrightarrow>
      download_loop env s e (asset # rest) i n w =
        download_loop env s e rest (i + 1) n (snd (download_asset env asset s e (ruled i w)))"
    unfolding download_loop_Cons by simp
  from 1 2 3 loop_attempts loop_count outcomes_length show ?thesis by blast
qed

lemma fetch_failed:
  "fetch env asset s e w \<noteq> None \<Longrightarrow> fst (the (fetch env asset s e w)) = Inl ex \<Longrightarrow>
   fetch env asset s e w = Some (Inl ex, snd (the (fetch env asset s e w)))"
  by (cases "fetch env asset s e w") auto

lemma fetch_succeeded:
  "fetch env asset s e w \<noteq> None \<Longrightarrow> \<not> isl (fst (the (fetch env asset s e w))) \<Longrightarrow>
   fetch env asset s e w =
     Some (Inr (projr (fst (the (fetch env asset s e w)))), snd (the (fetch env asset s e w)))"
  by (cases "fetch env asset s e w") auto

theorem failures_are_caught_per_instrument_witness:
  "fst (the (fetch demo_env ''ethusdt'' ''2025-01-01'' ''2025-06-01'' new_world)) =
     Inl (Exn BinanceAPIException ''APIError(code=-1121): Invalid symbol.'') \<and>
   \<not> fst (download_asset demo_env ''ethusdt'' ''2025-01-01'' ''2025-06-01'' new_world) \<and>
   \<not> isl (fst (the (fetch demo_env ''xauusd'' ''2025-01-01'' ''2025-06-01'' new_world))) \<and>
   fst (save_to_csv demo_env
          (projr (fst (the (fetch demo_env ''xauusd'' ''2025-01-01'' ''2025-06-01'' new_world))))
          ''xauusd_ohlcv_2025.csv''
          (snd (the (fetch demo_env ''xauusd'' ''2025-01-01'' ''2025-06-01'' new_world)))) =
     Inl (Exn OSError ''No space left on device'') \<and>
   \<not> fst (download_asset demo_env ''xauusd'' ''2025-01-01'' ''2025-06-01'' new_world) \<and>
   download_loop demo_env ''2025-01-01'' ''2025-06-01'' [''ethusdt'', ''xauusd'', ''btcusdt''] 0 0 new_world =
     download_loop demo_env ''2025-01-01'' ''2025-06-01'' [''xauusd'', ''btcusdt''] 1 0
       (snd (download_asset demo_env ''ethusdt'' ''2025-01-01'' ''2025-06-01'' new_world)) \<and>
   attempts (trace (snd (download_loop demo_env ''2025-01-01'' ''2025-06-01''
      [''ethusdt'', ''xauusd'', ''btcusdt''] 0 0 new_world))) = [''ETHUSDT'', ''GC=F'', ''BTCUSDT''] \<and>
   fst (download_loop demo_env ''2025-01-01'' ''2025-06-01''
      [''ethusdt'', ''xauusd'', ''btcusdt''] 0 0 new_world) = 1"
proof -
  define s where "s = ''2025-01-01''"
  define e where "e = ''2025-06-01''"
  define df where "df = projr (fst (the (fetch demo_env ''xauusd'' s e new_world)))"
  define w1 where "w1 = snd (the (fetch demo_env ''xauusd'' s e new_world))"
  note th1 = failures_are_caught_per_instrument [where env = demo_env and asset = "''ethusdt''"
      and s = s and e = e and w = new_world
      and ex = "Exn BinanceAPIException ''APIError(code=-1121): Invalid symbol.''"
      and ?w1.0 = "snd (the (fetch demo_env ''ethusdt'' s e new_world))"
      and i = 0 and rest = "[''xauusd'', ''btcusdt'']" and n = 0
      and assets = "[''ethusdt'', ''xauusd'', ''btcusdt'']"]
  note th2 = failures_are_caught_per_instrument [where env = demo_env and asset = "''xauusd''"
      and s = s and e = e and w = new_world
      and ex = "Exn OSError ''No space left on device''" and df = df and ?w1.0 = w1
      and filename = "''xauusd_ohlcv_2025.csv''"
      and ?w2.0 = "snd (save_to_csv demo_env df ''xauusd_ohlcv_2025.csv'' w1)"]
  have f1: "fetch demo_env ''ethusdt'' s e new_world \<noteq> None"
    and g1: "fetch demo_env ''xauusd'' s e new_world \<noteq> None"
    by (simp_all add: fetch_def)
  have f2: "fst (the (fetch demo_env ''ethusdt'' s e new_world)) =
     Inl (Exn BinanceAPIException ''APIError(code=-1121): Invalid symbol.'')"
    unfolding s_def e_def by code_simp
  have g2: "\<not> isl (fst (the (fetch demo_env ''xauusd'' s e new_world)))"
    unfolding s_def e_def by code_simp
  have g3: "fst (save_to_csv demo_env df ''xauusd_ohlcv_2025.csv'' w1) =
      Inl (Exn OSError ''No space left on device'')"
    unfolding df_def w1_def s_def e_def by code_simp
  have os: "outcomes demo_env s e [''ethusdt'', ''xauusd'', ''btcusdt''] 0 new_world =
      [False, False, True]"
    unfolding s_def e_def by code_simp
  have rt: "concat (map routed [''ethusdt'', ''xauusd'', ''btcusdt'']) = [''ETHUSDT'', ''GC=F'', ''BTCUSDT'']"
    by (simp add: routed_def provider_symbol_def)
  have r0: "ruled 0 new_world = new_world" by (simp add: ruled_def)
  from th1 fetch_failed [OF f1 f2]
  have "download_asset demo_env ''ethusdt'' s e new_world =
      (False, emit (Print (FailedDownload ''ethusdt''
         (Exn BinanceAPIException ''APIError(code=-1121): Invalid symbol.'')))
         (snd (the (fetch demo_env ''ethusdt'' s e new_world))))"
    by blast
  then have a: "\<not> fst (download_asset demo_env ''ethusdt'' s e new_world)"
    by simp
  have sv: "save_to_csv demo_env df ''xauusd_ohlcv_2025.csv'' w1 =
      (Inl (Exn OSError ''No space left on device''),
       snd (save_to_csv demo_env df ''xauusd_ohlcv_2025.csv'' w1))"
    using g3 by (simp add: prod_eq_iff)
  have fx: "fetch demo_env ''xauusd'' s e new_world = Some (Inr df, w1)"
    unfolding df_def w1_def by (rule fetch_succeeded [OF g1 g2])
  have of: "OUTPUT_FILES ''xauusd'' = Some ''xauusd_ohlcv_2025.csv''"
    by (simp add: OUTPUT_FILES_def)
  from th2 fx of sv
  have "download_asset demo_env ''xauusd'' s e new_world =
      (False, emit (Print (FailedDownload ''xauusd'' (Exn OSError ''No space left on device'')))
         (snd (save_to_csv demo_env df ''xauusd_ohlcv_2025.csv'' w1)))"
    by blast
  then have a2: "\<not> fst (download_asset demo_env ''xauusd'' s e new_world)"
    by simp
  from th1 a have l: "download_loop demo_env s e [''ethusdt'', ''xauusd'', ''btcusdt''] 0 0 new_world =
     download_loop demo_env s e [''xauusd'', ''btcusdt''] 1 0
       (snd (download_asset demo_env ''ethusdt'' s e new_world))"
    unfolding r0 by simp
  from th1 have "attempts (trace (snd (download_loop demo_env s e
      [''ethusdt'', ''xauusd'', ''btcusdt''] 0 0 new_world))) =
      attempts (trace new_world) @ concat (map routed [''ethusdt'', ''xauusd'', ''btcusdt''])"
    and "fst (download_loop demo_env s e
      [''ethusdt'', ''xauusd'', ''btcusdt''] 0 0 new_world) =
      0 + length (filter id (outcomes demo_env s e
         [''ethusdt'', ''xauusd'', ''btcusdt''] 0 new_world))"
    by blast+
  then have b: "attempts (trace (snd (download_loop demo_env s e
      [''ethusdt'', ''xauusd'', ''btcusdt''] 0 0 new_world))) = [''ETHUSDT'', ''GC=F'', ''BTCUSDT'']"
    and c: "fst (download_loop demo_env s e
      [''ethusdt'', ''xauusd'', ''btcusdt''] 0 0 new_world) = 1"
    unfolding os rt by (simp_all add: new_world_def)
  from f2 a g2 g3 a2 l b c show ?thesis
    unfolding df_def w1_def s_def e_def by blast
qed

section \<open>The adapters: what they return\<close>

text \<open>
  Lenient coercion is total. The exchange adapter's frame is computed in closed form
  from the candles; the market-data adapter's frame is computed in closed form for a
  table indexed by \<^verbatim>\<open>Date\<close> with distinct labels, and the adapter raises on every
  such table that it does not accept.
\<close>

lemma to_numeric_cell_coerce: "to_numeric_cell Coerce env c = Inr (coerced env c)"
  by (simp add: to_numeric_cell_def coerced_def split: cell.splits option.splits)

lemma to_numeric_coerce: "to_numeric Coerce env cells = Inr (map (coerced env) cells)"
  by (induction cells) (simp_all add: bind_exn_def to_numeric_cell_coerce)

lemma coerced_non_numeric: "\<not> is_numeric env c \<Longrightarrow> coerced env c = Null"
  by (auto simp add: is_numeric_def coerced_def split: cell.splits option.splits)

lemma coerced_numeric:
  "is_numeric env c \<Longrightarrow> (\<exists>n. coerced env c = IntV n) \<or> (\<exists>x. coerced env c = NumV x)"
  by (auto simp add: is_numeric_def coerced_def split: cell.splits option.splits)

lemma to_datetime_Inr:
  "to_datetime env cells = Inr ts \<longleftrightarrow> list_all2 (\<lambda>c t. to_datetime_cell env c = Inr t) cells ts"
proof (induction cells arbitrary: ts)
  case Nil
  then show ?case by auto
next
  case (Cons c cs)
  show ?case
  proof (cases "to_datetime env cs")
    case (Inl e)
    then have "\<And>us. \<not> list_all2 (\<lambda>c t. to_datetime_cell env c = Inr t) cs us"
      using Cons.IH by simp
    then show ?thesis
      by (cases ts) (auto simp add: bind_exn_def Inl split: sum.splits)
  next
    case (Inr us)
    have "\<And>vs. list_all2 (\<lambda>c t. to_datetime_cell env c = Inr t) cs vs \<longleftrightarrow> vs = us"
      unfolding Cons.IH [symmetric] Inr by auto
    then show ?thesis
      by (cases ts) (auto simp add: bind_exn_def Inr split: sum.splits)
  qed
qed

lemma to_datetime_cell_int:
  "to_datetime_cell env (IntV n) = Inr t \<Longrightarrow> t = TimeV (Timestamp n None)"
  by (simp add: to_datetime_cell_def split: if_splits)

lemma DataFrame_kline_columns:
  "DataFrame klines kline_columns =
     (if klines \<noteq> [] \<and> foldr max (map length klines) 0 \<noteq> 12
      then Inl (Exn ValueError ''columns passed do not match the columns of the data'')
      else Inr \<lparr>index_name = None, index = range_index (length klines),
             columns =
               [(''Open Time'', field 0 klines), (''Open'', field 1 klines),
                (''High'', field 2 klines), (''Low'', field 3 klines),
                (''Close'', field 4 klines), (''Volume'', field 5 klines),
                (''Close Time'', field 6 klines), (''Quote Asset Volume'', field 7 klines),
                (''Number of Trades'', field 8 klines),
                (''Taker Buy Base Asset Volume'', field 9 klines),
                (''Taker Buy Quote Asset Volume'', field 10 klines),
                (''Ignore'', field 11 klines)]\<rparr>)"
proof -
  have u: "[0..<12] = [0, 1, 2, 3, 4, 5, 6, 7, 8, 9, 10, 11 :: nat]"
    by (simp add: upt_rec)
  show ?thesis
    by (simp add: DataFrame_def kline_columns_def Let_def u range_index_def field_def)
qed

lemma binance_frame_eq:
  "binance_frame env klines =
     (if klines \<noteq> [] \<and> foldr max (map length klines) 0 \<noteq> 12
      then Inl (Exn ValueError ''columns passed do not match the columns of the data'')
      else case to_datetime env (field 0 klines) of
             Inl e \<Rightarrow> Inl e
           | Inr open_times \<Rightarrow>
               (case to_datetime env (field 6 klines) of
                  Inl e \<Rightarrow> Inl e
                | Inr close_times \<Rightarrow> Inr (ohlcv_frame env klines open_times)))"
  by (simp add: binance_frame_def DataFrame_kline_columns bind_exn_def convert_column_def
      get_series_def set_series_def labels_def to_numeric_coerce numeric_cols_def
      select_columns_def ohlcv_columns_def ohlcv_frame_def split: sum.splits)

lemma filter_label_absent:
  "l \<notin> set (map fst cs) \<Longrightarrow> filter (\<lambda>(l', c). l' = l) cs = []"
  by (induction cs) auto

lemma filter_label_distinct:
  "distinct (map fst cs) \<Longrightarrow> l \<in> set (map fst cs) \<Longrightarrow>
   filter (\<lambda>(l', c). l' = l) cs = [(l, the (map_of cs l))]"
proof (induction cs)
  case Nil
  then show ?case by simp
next
  case (Cons p cs)
  obtain k c where p: "p = (k, c)" by (cases p)
  show ?case
  proof (cases "k = l")
    case True
    with Cons.prems p have "l \<notin> set (map fst cs)" by simp
    from filter_label_absent [OF this] True p show ?thesis by simp
  next
    case False
    with Cons p show ?thesis by simp
  qed
qed

lemma rename_absent: "old \<notin> set (labels df) \<Longrightarrow> rename old new df = df"
proof -
  assume a: "old \<notin> set (labels df)"
  have "map (\<lambda>(l, c). (if l = old then new else l, c)) (columns df) = columns df"
    using a by (intro map_idI) (force simp add: labels_def)
  then show ?thesis by (simp add: rename_def)
qed

lemma strip_tz_naive: "is_datetime_column cells \<Longrightarrow> list_all is_naive (map strip_tz cells)"
  by (auto simp add: is_datetime_column_def list_all_iff is_naive_def strip_tz_def split: cell.splits)

lemma yahoo_frame_step:
  assumes d: "distinct (labels t)" and n: "index_name t = Some ''Date''"
    and ne: "\<not> df_empty t" and nd: "''Date'' \<notin> set (labels t)"
    and sub: "set numeric_cols \<subseteq> set (labels t)"
  shows "yahoo_frame symbol t =
     convert_column tz_localize_none ''Open Time''
       \<lparr>index_name = None, index = range_index (len t),
        columns = ((''Open Time'', index t) # filter (\<lambda>(l', c). l' = ''Open Time'') (columns t)) @
          [(''Open'', column t ''Open''), (''High'', column t ''High''),
           (''Low'', column t ''Low''), (''Close'', column t ''Close''),
           (''Volume'', column t ''Volume'')]\<rparr>"
proof -
  have r: "reset_index t =
      Inr \<lparr>index_name = None, index = range_index (len t), columns = (''Date'', index t) # columns t\<rparr>"
    using n nd by (simp add: reset_index_def)
  have rn: "rename ''Date'' ''Open Time''
        \<lparr>index_name = None, index = range_index (len t), columns = (''Date'', index t) # columns t\<rparr> =
      \<lparr>index_name = None, index = range_index (len t), columns = (''Open Time'', index t) # columns t\<rparr>"
  proof -
    have "map (\<lambda>(l, c). (if l = ''Date'' then ''Open Time'' else l, c)) (columns t) = columns t"
      using nd by (intro map_idI) (force simp add: labels_def)
    then show ?thesis by (simp add: rename_def)
  qed
  have dl: "distinct (map fst (columns t))" using d by (simp add: labels_def)
  have f: "filter (\<lambda>(l', c). l' = l) (columns t) = [(l, column t l)]"
    if "l \<in> set numeric_cols" for l
    using filter_label_distinct [OF dl, of l] sub that by (auto simp add: labels_def column_def)
  have mem: "''Open'' \<in> set (map fst (columns t))" "''High'' \<in> set (map fst (columns t))"
    "''Low'' \<in> set (map fst (columns t))" "''Close'' \<in> set (map fst (columns t))"
    "''Volume'' \<in> set (map fst (columns t))"
    using sub by (simp_all add: numeric_cols_def labels_def)
  have sel: "select_columns ohlcv_columns
        \<lparr>index_name = None, index = range_index (len t), columns = (''Open Time'', index t) # columns t\<rparr> =
      Inr \<lparr>index_name = None, index = range_index (len t),
        columns = ((''Open Time'', index t) # filter (\<lambda>(l', c). l' = ''Open Time'') (columns t)) @
          [(''Open'', column t ''Open''), (''High'', column t ''High''),
           (''Low'', column t ''Low''), (''Close'', column t ''Close''),
           (''Volume'', column t ''Volume'')]\<rparr>"
    using mem f [of "''Open''"] f [of "''High''"] f [of "''Low''"] f [of "''Close''"] f [of "''Volume''"]
    by (simp add: select_columns_def labels_def ohlcv_columns_def numeric_cols_def)
  show ?thesis
    using ne by (simp add: yahoo_frame_def r rn sel bind_exn_def)
qed

lemma yahoo_frame_ok:
  assumes d: "distinct (labels t)" and n: "index_name t = Some ''Date''" and ok: "feed_table_ok t"
  shows "yahoo_frame symbol t = Inr (yahoo_ohlcv_frame t)"
proof -
  from ok have ne: "\<not> df_empty t" and nd: "''Date'' \<notin> set (labels t)"
    and no: "''Open Time'' \<notin> set (labels t)" and sub: "set numeric_cols \<subseteq> set (labels t)"
    and dt: "is_datetime_column (index t)"
    by (simp_all add: feed_table_ok_def)
  have f: "filter (\<lambda>(l', c). l' = ''Open Time'') (columns t) = []"
    using filter_label_absent [of "''Open Time''" "columns t"] no by (simp add: labels_def)
  show ?thesis
    unfolding yahoo_frame_step [OF d n ne nd sub] f
    by (simp add: convert_column_def get_series_def set_series_def labels_def bind_exn_def
        tz_localize_none_def dt yahoo_ohlcv_frame_def)
qed

lemma yahoo_frame_fails:
  assumes d: "distinct (labels t)" and n: "index_name t = Some ''Date''" and bad: "\<not> feed_table_ok t"
  shows "\<exists>e. yahoo_frame symbol t = Inl e"
proof (cases "df_empty t")
  case True
  then show ?thesis by (simp add: yahoo_frame_def)
next
  case ne: False
  show ?thesis
  proof (cases "''Date'' \<in> set (labels t)")
    case True
    then have "\<exists>e. reset_index t = Inl e" using n by (simp add: reset_index_def)
    then show ?thesis using ne by (auto simp add: yahoo_frame_def bind_exn_def)
  next
    case nd: False
    have r: "reset_index t =
        Inr \<lparr>index_name = None, index = range_index (len t), columns = (''Date'', index t) # columns t\<rparr>"
      using n nd by (simp add: reset_index_def)
    show ?thesis
    proof (cases "set numeric_cols \<subseteq> set (labels t)")
      case False
      then obtain l where l: "l \<in> set numeric_cols" "l \<notin> set (labels t)" by auto
      define df2 where "df2 = rename ''Date'' ''Open Time''
          \<lparr>index_name = None, index = range_index (len t), columns = (''Date'', index t) # columns t\<rparr>"
      have "labels df2 = ''Open Time'' # labels t"
      proof -
        have "map (\<lambda>(l, c). (if l = ''Date'' then ''Open Time'' else l, c)) (columns t) = columns t"
          using nd by (intro map_idI) (force simp add: labels_def)
        then show ?thesis by (simp add: df2_def rename_def labels_def)
      qed
      with l have "l \<in> set ohlcv_columns" "l \<notin> set (labels df2)"
        by (auto simp add: ohlcv_columns_def numeric_cols_def)
      then have "filter (\<lambda>l. l \<notin> set (labels df2)) ohlcv_columns \<noteq> []"
        by (auto simp add: filter_empty_conv)
      then have "\<exists>e. select_columns ohlcv_columns df2 = Inl e"
        by (auto simp add: select_columns_def split: list.splits)
      then show ?thesis
        using ne by (auto simp add: yahoo_frame_def r bind_exn_def df2_def)
    next
      case sub: True
      note step = yahoo_frame_step [OF d n ne nd sub, of symbol]
      show ?thesis
      proof (cases "''Open Time'' \<in> set (labels t)")
        case True
        have dl: "distinct (map fst (columns t))" using d by (simp add: labels_def)
        have "filter (\<lambda>(l', c). l' = ''Open Time'') (columns t) =
            [(''Open Time'', the (map_of (columns t) ''Open Time''))]"
          using filter_label_distinct [OF dl, of "''Open Time''"] True by (simp add: labels_def)
        then show ?thesis
          unfolding step
          by (simp add: convert_column_def get_series_def bind_exn_def)
      next
        case no: False
        have f: "filter (\<lambda>(l', c). l' = ''Open Time'') (columns t) = []"
          using filter_label_absent [of "''Open Time''" "columns t"] no by (simp add: labels_def)
        from bad ne nd no sub have ndt: "\<not> is_datetime_column (index t)"
          by (simp add: feed_table_ok_def)
        show ?thesis
          unfolding step f
          by (simp add: convert_column_def get_series_def bind_exn_def tz_localize_none_def ndt)
      qed
    qed
  qed
qed

lemma yahoo_frame_eq:
  assumes "distinct (labels t)" and "index_name t = Some ''Date''"
  shows "yahoo_frame symbol t = Inr out \<longleftrightarrow> feed_table_ok t \<and> out = yahoo_ohlcv_frame t"
  using yahoo_frame_ok [OF assms, of symbol] yahoo_frame_fails [OF assms, of symbol]
  by (cases "feed_table_ok t") auto

lemma field_rows:
  "\<forall>row \<in> set data. j < length row \<Longrightarrow> field j data = map (\<lambda>row. row ! j) data"
  by (simp add: field_def)

lemma get_series_distinct:
  "distinct (labels df) \<Longrightarrow> l \<in> set (labels df) \<Longrightarrow> get_series l df = Inr (column df l)"
  using filter_label_distinct [of "columns df" l]
  by (simp add: get_series_def labels_def column_def)

lemma ohlcv_frame_series:
  "labels (ohlcv_frame env klines ts) = [''Open Time'', ''Open'', ''High'', ''Low'', ''Close'', ''Volume'']"
  "len (ohlcv_frame env klines ts) = length klines"
  "get_series ''Open Time'' (ohlcv_frame env klines ts) = Inr ts"
  "get_series ''Open'' (ohlcv_frame env klines ts) = Inr (map (coerced env) (field 1 klines))"
  "get_series ''High'' (ohlcv_frame env klines ts) = Inr (map (coerced env) (field 2 klines))"
  "get_series ''Low'' (ohlcv_frame env klines ts) = Inr (map (coerced env) (field 3 klines))"
  "get_series ''Close'' (ohlcv_frame env klines ts) = Inr (map (coerced env) (field 4 klines))"
  "get_series ''Volume'' (ohlcv_frame env klines ts) = Inr (map (coerced env) (field 5 klines))"
  by (simp_all add: ohlcv_frame_def labels_def len_def range_index_def get_series_def)

text \<open>
  Claim C5. For candles of twelve fields each, a frame that the exchange adapter builds
  has the columns Open Time, Open, High, Low, Close, Volume in that order and one row
  per candle; its Open Time cells are the conversions of the candles' first fields, an
  integer \<open>n\<close> becoming the timestamp of \<open>n\<close> milliseconds; its Open, High, Low,
  Close and Volume cells are the lenient coercions of fields 1 to 5. The coercion never
  raises, maps a cell that is not numeric to \<^verbatim>\<open>NaN\<close> and a numeric one to a number.
  The adapter builds a frame whenever the two time columns convert.
\<close>

theorem binance_frame_keeps_ohlcv_and_coerces:
  assumes "\<forall>row \<in> set klines. length row = 12"
  shows "(binance_frame env klines = Inr df \<longrightarrow>
            labels df = [''Open Time'', ''Open'', ''High'', ''Low'', ''Close'', ''Volume''] \<and>
            len df = length klines \<and>
            (\<exists>open_times. get_series ''Open Time'' df = Inr open_times \<and>
               list_all2 (\<lambda>row t. to_datetime_cell env (row ! 0) = Inr t) klines open_times) \<and>
            get_series ''Open'' df = Inr (map (\<lambda>row. coerced env (row ! 1)) klines) \<and>
            get_series ''High'' df = Inr (map (\<lambda>row. coerced env (row ! 2)) klines) \<and>
            get_series ''Low'' df = Inr (map (\<lambda>row. coerced env (row ! 3)) klines) \<and>
            get_series ''Close'' df = Inr (map (\<lambda>row. coerced env (row ! 4)) klines) \<and>
            get_series ''Volume'' df = Inr (map (\<lambda>row. coerced env (row ! 5)) klines)) \<and>
         (\<forall>n t. to_datetime_cell env (IntV n) = Inr t \<longrightarrow> t = TimeV (Timestamp n None)) \<and>
         (\<forall>cells. to_numeric Coerce env cells = Inr (map (coerced env) cells)) \<and>
         (\<forall>c. \<not> is_numeric env c \<longrightarrow> coerced env c = Null) \<and>
         (\<forall>c. is_numeric env c \<longrightarrow> (\<exists>n. coerced env c = IntV n) \<or> (\<exists>x. coerced env c = NumV x)) \<and>
         ((\<exists>ts. to_datetime env (map (\<lambda>row. row ! 0) klines) = Inr ts) \<and>
          (\<exists>ts. to_datetime env (map (\<lambda>row. row ! 6) klines) = Inr ts) \<longrightarrow>
            (\<exists>df. binance_frame env klines = Inr df))"
proof -
  have f: "field j klines = map (\<lambda>row. row ! j) klines" if "j < 12" for j
    using assms that by (intro field_rows) simp
  have w: "\<not> (klines \<noteq> [] \<and> foldr max (map length klines) 0 \<noteq> 12)"
  proof (cases klines)
    case Nil
    then show ?thesis by simp
  next
    case (Cons row rows)
    have "foldr max (map length ks) 0 = (if ks = [] then 0 else 12)"
      if "\<forall>row \<in> set ks. length row = 12" for ks :: "'a cell list list"
      using that by (induction ks) (auto simp add: max_def)
    from this [of klines] assms Cons show ?thesis by simp
  qed
  have 1: "labels df = [''Open Time'', ''Open'', ''High'', ''Low'', ''Close'', ''Volume''] \<and>
            len df = length klines \<and>
            (\<exists>open_times. get_series ''Open Time'' df = Inr open_times \<and>
               list_all2 (\<lambda>row t. to_datetime_cell env (row ! 0) = Inr t) klines open_times) \<and>
            get_series ''Open'' df = Inr (map (\<lambda>row. coerced env (row ! 1)) klines) \<and>
            get_series ''High'' df = Inr (map (\<lambda>row. coerced env (row ! 2)) klines) \<and>
            get_series ''Low'' df = Inr (map (\<lambda>row. coerced env (row ! 3)) klines) \<and>
            get_series ''Close'' df = Inr (map (\<lambda>row. coerced env (row ! 4)) klines) \<and>
            get_series ''Volume'' df = Inr (map (\<lambda>row. coerced env (row ! 5)) klines)"
    if ok: "binance_frame env klines = Inr df"
  proof -
    from ok w obtain ts where ts: "to_datetime env (field 0 klines) = Inr ts"
      and df: "df = ohlcv_frame env klines ts"
      by (auto simp add: binance_frame_eq split: sum.splits if_splits)
    from ts have "list_all2 (\<lambda>c t. to_datetime_cell env c = Inr t) (map (\<lambda>row. row ! 0) klines) ts"
      by (simp add: to_datetime_Inr f)
    then have "list_all2 (\<lambda>row t. to_datetime_cell env (row ! 0) = Inr t) klines ts"
      by (simp add: list_all2_map1)
    then show ?thesis
      unfolding df by (simp add: ohlcv_frame_series f)
  qed
  have 2: "\<exists>df. binance_frame env klines = Inr df"
    if "(\<exists>ts. to_datetime env (map (\<lambda>row. row ! 0) klines) = Inr ts) \<and>
        (\<exists>ts. to_datetime env (map (\<lambda>row. row ! 6) klines) = Inr ts)"
  proof -
    from that obtain ts0 ts6 where "to_datetime env (field 0 klines) = Inr ts0"
      and "to_datetime env (field 6 klines) = Inr ts6"
      by (auto simp add: f)
    with w show ?thesis by (simp add: binance_frame_eq)
  qed
  from 1 2 to_datetime_cell_int to_numeric_coerce coerced_non_numeric coerced_numeric
  show ?thesis by blast
qed

theorem binance_frame_keeps_ohlcv_and_coerces_witness:
  "list_all (\<lambda>row. length row = 12) demo_klines \<and>
   binance_frame demo_env demo_klines =
     Inr \<lparr>index_name = None, index = [IntV 0, IntV 1],
          columns =
            [(''Open Time'', [TimeV (Timestamp 1735689600000 None), TimeV (Timestamp 1735776000000 None)]),
             (''Open'', [NumV 9357600, NumV 9459178]),
             (''High'', [NumV 9515115, Null]),
             (''Low'', [NumV 9288800, NumV 9420100]),
             (''Close'', [NumV 9459179, NumV 9698479]),
             (''Volume'', [NumV 1037332, NumV 2197048])]\<rparr> \<and>
   \<not> is_numeric demo_env (StrV ''n/a'') \<and>
   get_series ''High'' (projr (binance_frame demo_env demo_klines)) =
     Inr [coerced demo_env (StrV ''95151.15''), Null]"
proof -
  have r: "\<forall>row \<in> set demo_klines. length row = 12"
    by (simp add: demo_klines_def)
  have b: "binance_frame demo_env demo_klines =
     Inr \<lparr>index_name = None, index = [IntV 0, IntV 1],
          columns =
            [(''Open Time'', [TimeV (Timestamp 1735689600000 None), TimeV (Timestamp 1735776000000 None)]),
             (''Open'', [NumV 9357600, NumV 9459178]),
             (''High'', [NumV 9515115, Null]),
             (''Low'', [NumV 9288800, NumV 9420100]),
             (''Close'', [NumV 9459179, NumV 9698479]),
             (''Volume'', [NumV 1037332, NumV 2197048])]\<rparr>"
    by code_simp
  have n: "\<not> is_numeric demo_env (StrV ''n/a'')"
    by (simp add: is_numeric_def demo_env_def)
  note th = binance_frame_keeps_ohlcv_and_coerces [OF r, of demo_env "projr (binance_frame demo_env demo_klines)"]
  have "binance_frame demo_env demo_klines = Inr (projr (binance_frame demo_env demo_klines))"
    unfolding b by simp
  with th have "get_series ''High'' (projr (binance_frame demo_env demo_klines)) =
      Inr (map (\<lambda>row. coerced demo_env (row ! 2)) demo_klines)"
    by blast
  moreover from th n have "coerced demo_env (StrV ''n/a'') = Null" by blast
  ultimately have "get_series ''High'' (projr (binance_frame demo_env demo_klines)) =
     Inr [coerced demo_env (StrV ''95151.15''), Null]"
    by (simp add: demo_klines_def)
  with r b n show ?thesis by (simp add: list_all_iff)
qed

text \<open>
  Claim C8. For a provider table indexed by \<^verbatim>\<open>Date\<close> with distinct column labels
  (what the market-data feed returns), a frame that the adapter builds comes from a
  non-empty table, has the columns Open Time, Open, High, Low, Close, Volume in that
  order and as many rows as the table; its Open Time column is the table's index with
  the zone stripped from every value, so each value is naive; its other columns are the
  table's. The adapter builds a frame for every such table that is not empty, has the
  five price and volume columns, a datetime index and no column named \<^verbatim>\<open>Date\<close> or
  \<^verbatim>\<open>Open Time\<close>.
\<close>

theorem yahoo_frame_normalizes:
  assumes "distinct (labels t)" and "index_name t = Some ''Date''"
  shows "(yahoo_frame symbol t = Inr out \<longrightarrow>
            \<not> df_empty t \<and>
            labels out = [''Open Time'', ''Open'', ''High'', ''Low'', ''Close'', ''Volume''] \<and>
            len out = len t \<and>
            get_series ''Open Time'' out = Inr (map strip_tz (index t)) \<and>
            list_all is_naive (map strip_tz (index t)) \<and>
            (\<forall>l \<in> set numeric_cols. get_series l out = get_series l t)) \<and>
         (feed_table_ok t \<longrightarrow> (\<exists>out. yahoo_frame symbol t = Inr out))"
    (is "?A \<and> ?C")
proof -
  have 1: "\<not> df_empty t \<and>
            labels out = [''Open Time'', ''Open'', ''High'', ''Low'', ''Close'', ''Volume''] \<and>
            len out = len t \<and>
            get_series ''Open Time'' out = Inr (map strip_tz (index t)) \<and>
            list_all is_naive (map strip_tz (index t)) \<and>
            (\<forall>l \<in> set numeric_cols. get_series l out = get_series l t)"
    if "yahoo_frame symbol t = Inr out"
  proof -
    from that have ok: "feed_table_ok t" and out: "out = yahoo_ohlcv_frame t"
      using yahoo_frame_eq [OF assms, of symbol out] by simp_all
    from ok have dt: "is_datetime_column (index t)" and ne: "\<not> df_empty t"
      and sub: "set numeric_cols \<subseteq> set (labels t)"
      by (simp_all add: feed_table_ok_def)
    have "get_series l out = get_series l t" if "l \<in> set numeric_cols" for l
    proof -
      from that sub have "l \<in> set (labels t)" by auto
      from get_series_distinct [OF assms(1) this] that show ?thesis
        unfolding out
        by (auto simp add: yahoo_ohlcv_frame_def get_series_def numeric_cols_def)
    qed
    then show ?thesis
      using ne strip_tz_naive [OF dt]
      unfolding out
      by (simp add: yahoo_ohlcv_frame_def labels_def len_def range_index_def get_series_def)
  qed
  from 1 have a: ?A by blast
  from yahoo_frame_ok [OF assms, of symbol] have c: ?C by blast
  from a c show ?thesis by (intro conjI)
qed

theorem yahoo_frame_normalizes_witness:
  "distinct (labels demo_table) \<and> index_name demo_table = Some ''Date'' \<and> feed_table_ok demo_table \<and>
   yahoo_frame ''GC=F'' demo_table =
     Inr \<lparr>index_name = None, index = [IntV 0, IntV 1],
          columns =
            [(''Open Time'', [TimeV (Timestamp 1735776000000 None), TimeV (Timestamp 1735862400000 None)]),
             (''Open'', [NumV 263300, NumV 266500]),
             (''High'', [NumV 267200, NumV 267500]),
             (''Low'', [NumV 263000, NumV 264300]),
             (''Close'', [NumV 265800, NumV 264500]),
             (''Volume'', [IntV 127, IntV 64])]\<rparr> \<and>
   get_series ''Open Time'' (projr (yahoo_frame ''GC=F'' demo_table)) =
     Inr [TimeV (Timestamp 1735776000000 None), TimeV (Timestamp 1735862400000 None)]"
proof -
  have d: "distinct (labels demo_table)" by (simp add: demo_table_def labels_def)
  have n: "index_name demo_table = Some ''Date''" by (simp add: demo_table_def)
  have ok: "feed_table_ok demo_table" by code_simp
  have y: "yahoo_frame ''GC=F'' demo_table =
     Inr \<lparr>index_name = None, index = [IntV 0, IntV 1],
          columns =
            [(''Open Time'', [TimeV (Timestamp 1735776000000 None), TimeV (Timestamp 1735862400000 None)]),
             (''Open'', [NumV 263300, NumV 266500]),
             (''High'', [NumV 267200, NumV 267500]),
             (''Low'', [NumV 263000, NumV 264300]),
             (''Close'', [NumV 265800, NumV 264500]),
             (''Volume'', [IntV 127, IntV 64])]\<rparr>"
    by code_simp
  note th = yahoo_frame_normalizes [OF d n, of "''GC=F''" "projr (yahoo_frame ''GC=F'' demo_table)"]
  have "yahoo_frame ''GC=F'' demo_table = Inr (projr (yahoo_frame ''GC=F'' demo_table))"
    unfolding y by simp
  with th have "get_series ''Open Time'' (projr (yahoo_frame ''GC=F'' demo_table)) =
      Inr (map strip_tz (index demo_table))"
    by blast
  then have "get_series ''Open Time'' (projr (yahoo_frame ''GC=F'' demo_table)) =
     Inr [TimeV (Timestamp 1735776000000 None), TimeV (Timestamp 1735862400000 None)]"
    by (simp add: demo_table_def strip_tz_def)
  with d n ok y show ?thesis by simp
qed

section \<open>The exporter: what a successful download leaves on disk\<close>

lemma download_binance_Inr:
  "download_binance_ohlcv env symbol s e w = (Inr df, w') \<Longrightarrow>
   \<exists>klines. binance_frame env klines = Inr df"
  by (auto simp add: download_binance_ohlcv_def binance_fetch_def Let_def bind_exn_def
      split: option.splits sum.splits prod.splits)

lemma download_yahoo_Inr:
  "download_yahoo_ohlcv env symbol s e w = (Inr df, w') \<Longrightarrow>
   \<exists>tm t. ticker_history env tm symbol s e = Inr t \<and> yahoo_frame symbol t = Inr df"
  by (auto simp add: download_yahoo_ohlcv_def Let_def bind_exn_def split: sum.splits)

lemma binance_frame_labels:
  "binance_frame env klines = Inr df \<Longrightarrow> labels df = ohlcv_columns"
  by (auto simp add: binance_frame_eq ohlcv_frame_series ohlcv_columns_def
      split: if_splits sum.splits)

lemma fetch_labels:
  assumes contract: "\<forall>tm symbol s e t. ticker_history env tm symbol s e = Inr t \<longrightarrow>
      distinct (labels t) \<and> index_name t = Some ''Date''"
    and f: "fetch env asset s e w = Some (Inr df, w1)"
  shows "labels df = ohlcv_columns"
proof -
  from f consider
      (binance) symbol where "download_binance_ohlcv env symbol s e w = (Inr df, w1)"
    | (yahoo) "download_yahoo_ohlcv env ''GC=F'' s e w = (Inr df, w1)"
    by (auto simp add: fetch_def split: if_splits)
  then show ?thesis
  proof cases
    case binance
    from download_binance_Inr [OF this] binance_frame_labels show ?thesis by blast
  next
    case yahoo
    from download_yahoo_Inr [OF this] obtain tm t where
      t: "ticker_history env tm ''GC=F'' s e = Inr t" and y: "yahoo_frame ''GC=F'' t = Inr df"
      by blast
    from contract t have "distinct (labels t)" "index_name t = Some ''Date''" by blast+
    from yahoo_frame_eq [OF this, of "''GC=F''" df] y show ?thesis
      by (simp add: ohlcv_columns_def yahoo_ohlcv_frame_def labels_def)
  qed
qed

lemma header_line:
  "join '','' (map csv_field ohlcv_columns) = ''Open Time,Open,High,Low,Close,Volume''"
  by (simp add: ohlcv_columns_def csv_field_def)

lemma output_file_name:
  "OUTPUT_FILES asset = Some filename \<Longrightarrow> filename = asset @ ''_ohlcv_2025.csv''"
  by (auto simp add: OUTPUT_FILES_def split: if_splits)

lemma download_asset_True:
  assumes "download_asset env asset s e w = (True, w')"
  shows "\<exists>df w1 filename. fetch env asset s e w = Some (Inr df, w1) \<and>
           OUTPUT_FILES asset = Some filename \<and>
           disk env (clock w1) filename = None \<and>
           w' = emit (Print (Saved filename))
                  ((emit (WriteFile filename) w1)
                     \<lparr>files := (files (emit (WriteFile filename) w1))(filename \<mapsto> to_csv env df)\<rparr>)"
  using assms
  by (auto simp add: download_asset_def save_to_csv_def Let_def
      split: option.splits sum.splits prod.splits)

text \<open>
  Claim C6. With a market-data feed whose tables are indexed by \<^verbatim>\<open>Date\<close> and have
  distinct labels, whenever \<^verbatim>\<open>download_asset\<close> succeeds for an instrument, by either
  adapter, the file \<^verbatim>\<open>{instrument}_ohlcv_2025.csv\<close> holds the header line
  \<^verbatim>\<open>Open Time,Open,High,Low,Close,Volume\<close> followed by one line per row of the fetched
  frame, each of six fields (no index column); the content does not depend on what the
  file held before; no other file changes; and this file is the one write attempted.
\<close>

theorem exported_file_has_fixed_header:
  assumes "\<forall>tm symbol s e t. ticker_history env tm symbol s e = Inr t \<longrightarrow>
      distinct (labels t) \<and> index_name t = Some ''Date''"
    and "download_asset env asset s e w = (True, w')"
  shows "\<exists>df w1. fetch env asset s e w = Some (Inr df, w1) \<and>
           files w' (asset @ ''_ohlcv_2025.csv'') =
             Some (''Open Time,Open,High,Low,Close,Volume'' #
                   map (\<lambda>i. join '','' (row_fields env df i)) [0..<len df]) \<and>
           (\<forall>i. length (row_fields env df i) = 6) \<and>
           (\<forall>path. path \<noteq> asset @ ''_ohlcv_2025.csv'' \<longrightarrow> files w' path = files w path) \<and>
           writes (trace w') = writes (trace w) @ [asset @ ''_ohlcv_2025.csv'']"
proof -
  from download_asset_True [OF assms(2)] obtain df w1 filename where
    f: "fetch env asset s e w = Some (Inr df, w1)" and o: "OUTPUT_FILES asset = Some filename"
    and w': "w' = emit (Print (Saved filename))
                  ((emit (WriteFile filename) w1)
                     \<lparr>files := (files (emit (WriteFile filename) w1))(filename \<mapsto> to_csv env df)\<rparr>)"
    by blast
  have name: "filename = asset @ ''_ohlcv_2025.csv''" by (rule output_file_name [OF o])
  have l: "labels df = ohlcv_columns" by (rule fetch_labels [OF assms(1) f])
  have "length (labels df) = 6" unfolding l by (simp add: ohlcv_columns_def)
  then have six: "length (columns df) = 6" by (simp add: labels_def)
  have csv: "to_csv env df = ''Open Time,Open,High,Low,Close,Volume'' #
                   map (\<lambda>i. join '','' (row_fields env df i)) [0..<len df]"
    by (simp add: to_csv_def l header_line)
  have a: "files w' (asset @ ''_ohlcv_2025.csv'') =
             Some (''Open Time,Open,High,Low,Close,Volume'' #
                   map (\<lambda>i. join '','' (row_fields env df i)) [0..<len df])"
    unfolding w' by (simp add: name csv)
  have b: "\<forall>i. length (row_fields env df i) = 6"
    using six by (simp add: row_fields_def)
  have c: "\<forall>path. path \<noteq> asset @ ''_ohlcv_2025.csv'' \<longrightarrow> files w' path = files w path"
    unfolding w' using fetch_trace(4) [OF f] by (simp add: name)
  have d: "writes (trace w') = writes (trace w) @ [asset @ ''_ohlcv_2025.csv'']"
    unfolding w' using fetch_trace(2) [OF f] by (simp add: name)
  from f a b c d show ?thesis by blast
qed

theorem exported_file_has_fixed_header_witness:
  "fst (download_asset demo_env ''btcusdt'' ''2025-01-01'' ''2025-06-01'' new_world) \<and>
   files (snd (download_asset demo_env ''btcusdt'' ''2025-01-01'' ''2025-06-01'' new_world))
     ''btcusdt_ohlcv_2025.csv'' =
     Some [''Open Time,Open,High,Low,Close,Volume'', ''time,num,num,num,num,num'',
           ''time,num,,num,num,num''] \<and>
   (\<exists>df. fst (the (fetch demo_env ''btcusdt'' ''2025-01-01'' ''2025-06-01'' new_world)) = Inr df \<and>
     files (snd (download_asset demo_env ''btcusdt'' ''2025-01-01'' ''2025-06-01'' new_world))
       (''btcusdt'' @ ''_ohlcv_2025.csv'') =
       Some (''Open Time,Open,High,Low,Close,Volume'' #
             map (\<lambda>i. join '','' (row_fields demo_env df i)) [0..<len df]))"
proof -
  have contract: "\<forall>tm symbol s e t. ticker_history demo_env tm symbol s e = Inr t \<longrightarrow>
      distinct (labels t) \<and> index_name t = Some ''Date''"
    by (simp add: demo_env_def demo_table_def labels_def)
  have ok: "fst (download_asset demo_env ''btcusdt'' ''2025-01-01'' ''2025-06-01'' new_world)"
    by code_simp
  then have eq: "download_asset demo_env ''btcusdt'' ''2025-01-01'' ''2025-06-01'' new_world =
      (True, snd (download_asset demo_env ''btcusdt'' ''2025-01-01'' ''2025-06-01'' new_world))"
    by (simp add: prod_eq_iff)
  have content: "files (snd (download_asset demo_env ''btcusdt'' ''2025-01-01'' ''2025-06-01'' new_world))
     ''btcusdt_ohlcv_2025.csv'' =
     Some [''Open Time,Open,High,Low,Close,Volume'', ''time,num,num,num,num,num'',
           ''time,num,,num,num,num'']"
    by code_simp
  from exported_file_has_fixed_header [OF contract eq]
  have "\<exists>df. fst (the (fetch demo_env ''btcusdt'' ''2025-01-01'' ''2025-06-01'' new_world)) = Inr df \<and>
     files (snd (download_asset demo_env ''btcusdt'' ''2025-01-01'' ''2025-06-01'' new_world))
       (''btcusdt'' @ ''_ohlcv_2025.csv'') =
       Some (''Open Time,Open,High,Low,Close,Volume'' #
             map (\<lambda>i. join '','' (row_fields demo_env df i)) [0..<len df])"
    by force
  with ok content show ?thesis by blast
qed

section \<open>Empty results\<close>

text \<open>
  The two adapters differ on a provider that has no rows to give: the market-data
  adapter raises and nothing is written, the exchange adapter returns a frame without
  rows, which is then exported.
\<close>

lemma binance_frame_no_candles: "binance_frame env [] = Inr (ohlcv_frame env [] [])"
  by (simp add: binance_frame_eq field_def)

lemma to_csv_no_candles:
  "to_csv env (ohlcv_frame env [] []) = [''Open Time,Open,High,Low,Close,Volume'']"
  using header_line
  by (simp add: to_csv_def ohlcv_frame_def labels_def len_def range_index_def ohlcv_columns_def)

lemma binance_empty_result_is_success:
  assumes "\<forall>tm. client_init env tm = None"
    and "date_to_ms env s = Inr a" and "date_to_ms env e = Inr b"
    and "\<forall>tm. get_historical_klines env tm ''BTCUSDT'' a b = Inr []"
    and "\<forall>tm. disk env tm ''btcusdt_ohlcv_2025.csv'' = None"
  shows "fst (download_asset env ''btcusdt'' s e w) \<and>
         files (snd (download_asset env ''btcusdt'' s e w)) ''btcusdt_ohlcv_2025.csv'' =
           Some [''Open Time,Open,High,Low,Close,Volume'']"
  using assms
  by (simp add: download_asset_def fetch_def download_binance_ohlcv_def binance_fetch_def
      Let_def bind_exn_def binance_frame_no_candles OUTPUT_FILES_def save_to_csv_def
      to_csv_no_candles)

lemma yahoo_empty_result_is_failure:
  assumes "ticker_history env (Suc (clock w)) ''GC=F'' s e = Inr t" and "df_empty t"
  shows "\<not> fst (download_asset env ''xauusd'' s e w) \<and>
         files (snd (download_asset env ''xauusd'' s e w)) = files w \<and>
         writes (trace (snd (download_asset env ''xauusd'' s e w))) = writes (trace w)"
  using assms
  by (simp add: download_asset_def fetch_def download_yahoo_ohlcv_def Let_def bind_exn_def
      yahoo_frame_def clock_def)

text \<open>
  Claim C1 fails for the Exchange Klines adapter: it has no check for an empty result,
  unlike \<^verbatim>\<open>download_yahoo_ohlcv\<close>. With an exchange that returns no candle,
  \<^verbatim>\<open>download_asset\<close> returns \<^verbatim>\<open>True\<close> for btcusdt, the file is written with the
  header line alone, the tally is 1/1 and the exit status is 0.
\<close>

theorem binance_empty_result_is_exported:
  "fst (download_asset quiet_env ''btcusdt'' ''2025-01-01'' ''2025-06-01'' new_world) \<and>
   files (snd (download_asset quiet_env ''btcusdt'' ''2025-01-01'' ''2025-06-01'' new_world))
     ''btcusdt_ohlcv_2025.csv'' = Some [''Open Time,Open,High,Low,Close,Volume''] \<and>
   tallies (trace (snd (main quiet_env [AssetOpt ''btcusdt''] new_world))) = [(1, 1)] \<and>
   fst (main quiet_env [AssetOpt ''btcusdt''] new_world) = 0"
  by code_simp

end
